theory Spec2Isabelle
  imports Main "HOL-Library.Sublist"
begin

section \<open>Python values\<close>

text \<open>
  The values that travel through \<^verbatim>\<open>TikTokApi/api/user.py\<close> are parsed JSON: the
  transport's responses, the identifiers read out of them, the cursor and the keyword
  arguments. \<open>JNull\<close> is Python's \<^verbatim>\<open>None\<close>. A dictionary is an association list in
  which the first binding of a key is the dictionary's value for it. Numbers that are not
  integers do not occur in any field this module reads and are not modelled.
\<close>

datatype json =
    JNull
  | JBool bool
  | JInt int
  | JStr string
  | JList "json list"
  | JObj "(string \<times> json) list"

text \<open>The exceptions this module raises itself or lets Python raise on a malformed value.\<close>

datatype error =
    TypeError
  | AttributeError
  | KeyError string
  | InvalidResponseException

text \<open>Python's truth value of an object (\<^verbatim>\<open>not x\<close> is \<open>\<not> truthy x\<close>).\<close>

fun truthy :: "json \<Rightarrow> bool" where
  "truthy JNull = False"
| "truthy (JBool b) = b"
| "truthy (JInt i) = (i \<noteq> 0)"
| "truthy (JStr s) = (s \<noteq> [])"
| "truthy (JList xs) = (xs \<noteq> [])"
| "truthy (JObj kvs) = (kvs \<noteq> [])"

text \<open>\<^verbatim>\<open>x.get(k, d)\<close>: only a dictionary has the method.\<close>

fun py_get :: "json \<Rightarrow> string \<Rightarrow> json \<Rightarrow> error + json" where
  "py_get (JObj kvs) k d = Inr (case map_of kvs k of None \<Rightarrow> d | Some v \<Rightarrow> v)"
| "py_get _ k d = Inl AttributeError"

text \<open>\<^verbatim>\<open>x[k]\<close> with a string key: a missing key of a dictionary is a \<^verbatim>\<open>KeyError\<close>,
  any other object refuses a string subscript with a \<^verbatim>\<open>TypeError\<close>.\<close>

fun py_index :: "json \<Rightarrow> string \<Rightarrow> error + json" where
  "py_index (JObj kvs) k = (case map_of kvs k of None \<Rightarrow> Inl (KeyError k) | Some v \<Rightarrow> Inr v)"
| "py_index _ k = Inl TypeError"

text \<open>\<^verbatim>\<open>k in x\<close> with a string \<open>k\<close>: key membership in a dictionary, element membership
  in a list, substring test in a string, \<^verbatim>\<open>TypeError\<close> otherwise.\<close>

fun py_in :: "string \<Rightarrow> json \<Rightarrow> error + bool" where
  "py_in k (JObj kvs) = Inr (k \<in> set (map fst kvs))"
| "py_in k (JList xs) = Inr (JStr k \<in> set xs)"
| "py_in k (JStr s) = Inr (sublist k s)"
| "py_in k _ = Inl TypeError"

text \<open>\<^verbatim>\<open>for item in x\<close>: the elements of a list, the characters of a string, the keys of
  a dictionary; \<^verbatim>\<open>None\<close>, booleans and integers are not iterable.\<close>

fun py_iter :: "json \<Rightarrow> error + json list" where
  "py_iter (JList xs) = Inr xs"
| "py_iter (JStr s) = Inr (map (\<lambda>c. JStr [c]) s)"
| "py_iter (JObj kvs) = Inr (map JStr (remdups (map fst kvs)))"
| "py_iter _ = Inl TypeError"

section \<open>The entity, the transport and the state\<close>

text \<open>
  \<^verbatim>\<open>User.__init__\<close> always assigns the three identifiers (to \<^verbatim>\<open>None\<close> when not
  given), so they are plain values; \<^verbatim>\<open>as_dict\<close> is assigned only with a payload, so it
  may be an absent attribute (\<open>None\<close> here).
\<close>

record user =
  user_id :: json
  sec_uid :: json
  username :: json
  as_dict :: "json option"

type_synonym kwargs = "(string \<times> json) list"

definition kwargs_get :: "kwargs \<Rightarrow> string \<Rightarrow> json" where
  "kwargs_get kw k = (case map_of kw k of None \<Rightarrow> JNull | Some v \<Rightarrow> v)"

record request =
  url :: string
  params :: "(string \<times> json) list"
  headers :: json
  session :: json
  session_index :: json

text \<open>
  \<^verbatim>\<open>parent.make_request\<close> is the external collaborator: a deterministic function of its
  own state \<open>'w\<close> and the request, answering parsed JSON or \<^verbatim>\<open>None\<close>. The state
  threaded through the module holds the entity, the collaborator's state, every request
  sent so far and every payload handed to \<^verbatim>\<open>parent.logger.error\<close>.
\<close>

type_synonym 'w transport = "'w \<Rightarrow> request \<Rightarrow> json \<times> 'w"

record 'w state =
  self :: user
  world :: 'w
  sent :: "request list"
  logged :: "json list"

definition make_request :: "'w transport \<Rightarrow> request \<Rightarrow> 'w state \<Rightarrow> json \<times> 'w state" where
  "make_request t req s =
     (case t (world s) req of
        (resp, w') \<Rightarrow> (resp, s\<lparr>world := w', sent := sent s @ [req]\<rparr>))"

definition update_id_sec_uid_username :: "json \<Rightarrow> json \<Rightarrow> json \<Rightarrow> user \<Rightarrow> user" where
  "update_id_sec_uid_username i sec un u = u\<lparr>user_id := i, sec_uid := sec, username := un\<rparr>"

text \<open>\<^verbatim>\<open>User.__init__\<close> without a payload.\<close>

definition init_user :: "json \<Rightarrow> json \<Rightarrow> json \<Rightarrow> user" where
  "init_user un i sec = \<lparr>user_id = i, sec_uid = sec, username = un, as_dict = None\<rparr>"

text \<open>The tail of \<^verbatim>\<open>__extract_from_data\<close>: a \<^verbatim>\<open>None\<close> identifier is logged, not raised.\<close>

definition log_if_none :: "json \<Rightarrow> 'w state \<Rightarrow> 'w state" where
  "log_if_none data s =
     (if JNull \<in> set [username (self s), user_id (self s), sec_uid (self s)]
      then s\<lparr>logged := logged s @ [data]\<rparr> else s)"

text \<open>The three subscripts are evaluated in order before the identifiers are assigned.\<close>

definition read_identifiers :: "json \<Rightarrow> error + (json \<times> json \<times> json)" where
  "read_identifiers d =
     (case py_index d ''id'' of Inl e \<Rightarrow> Inl e | Inr i \<Rightarrow>
      case py_index d ''secUid'' of Inl e \<Rightarrow> Inl e | Inr sec \<Rightarrow>
      case py_index d ''uniqueId'' of Inl e \<Rightarrow> Inl e | Inr un \<Rightarrow> Inr (i, sec, un))"

definition assign_identifiers :: "json \<Rightarrow> json \<Rightarrow> 'w state \<Rightarrow> error + 'w state" where
  "assign_identifiers data d s =
     (case read_identifiers d of
        Inl e \<Rightarrow> Inl e
      | Inr (i, sec, un) \<Rightarrow>
          Inr (log_if_none data (s\<lparr>self := update_id_sec_uid_username i sec un (self s)\<rparr>)))"

text \<open>
  \<^verbatim>\<open>User.__extract_from_data\<close>. Every raise comes before the only assignment, so an
  error leaves the state as it was and is returned alone.
\<close>

definition extract_from_data :: "'w state \<Rightarrow> error + 'w state" where
  "extract_from_data s =
     (case as_dict (self s) of
        None \<Rightarrow> Inl AttributeError
      | Some data \<Rightarrow>
         (case data of
            JObj kvs \<Rightarrow>
              (case map_of kvs ''userInfo'' of
                 Some user_info \<Rightarrow>
                   (case py_get user_info ''user'' (JObj []) of
                      Inl e \<Rightarrow> Inl e
                    | Inr user_data \<Rightarrow>
                        if \<not> truthy user_data then Inl InvalidResponseException
                        else (case py_in ''id'' user_data of
                                Inl e \<Rightarrow> Inl e
                              | Inr b \<Rightarrow>
                                  if \<not> b then Inl InvalidResponseException
                                  else assign_identifiers data user_data s))
               | None \<Rightarrow> assign_identifiers data data s)
          | _ \<Rightarrow> Inl AttributeError))"

text \<open>
  \<^verbatim>\<open>User.info\<close>. The state is returned beside the result because the request has been
  sent, and \<^verbatim>\<open>as_dict\<close> assigned, before the later raises.
\<close>

definition info_request :: "kwargs \<Rightarrow> user \<Rightarrow> request" where
  "info_request kw u =
     \<lparr>url = ''https://www.tiktok.com/api/user/detail/'',
      params = [(''secUid'', if sec_uid u \<noteq> JNull then sec_uid u else JStr ''''),
                (''uniqueId'', if username u \<noteq> JNull then username u else JStr ''''),
                (''msToken'', kwargs_get kw ''ms_token'')],
      headers = kwargs_get kw ''headers'',
      session = kwargs_get kw ''session'',
      session_index = kwargs_get kw ''session_index''\<rparr>"

definition info :: "'w transport \<Rightarrow> kwargs \<Rightarrow> 'w state \<Rightarrow> (error + json) \<times> 'w state" where
  "info t kw s =
     (if \<not> truthy (username (self s)) \<and> \<not> truthy (sec_uid (self s))
      then (Inl TypeError, s)
      else (case make_request t (info_request kw (self s)) s of
              (resp, s1) \<Rightarrow>
                if resp = JNull then (Inl InvalidResponseException, s1)
                else (let s2 = s1\<lparr>self := (self s1)\<lparr>as_dict := Some resp\<rparr>\<rparr>
                      in case extract_from_data s2 of
                           Inl e \<Rightarrow> (Inl e, s2)
                         | Inr s3 \<Rightarrow> (Inr resp, s3))))"

section \<open>Pagination\<close>

text \<open>
  \<^verbatim>\<open>playlists\<close>, \<^verbatim>\<open>videos\<close>, \<^verbatim>\<open>videos_page\<close> and \<^verbatim>\<open>liked\<close> all start with the
  same two lines: hydrate through \<^verbatim>\<open>info\<close> when \<^verbatim>\<open>sec_uid\<close> is \<^verbatim>\<open>None\<close> or empty.
\<close>

definition ensure_sec_uid :: "'w transport \<Rightarrow> kwargs \<Rightarrow> 'w state \<Rightarrow> error option \<times> 'w state" where
  "ensure_sec_uid t kw s =
     (if sec_uid (self s) = JNull \<or> sec_uid (self s) = JStr []
      then (case info t kw s of
              (Inl e, s1) \<Rightarrow> (Some e, s1)
            | (Inr resp, s1) \<Rightarrow> (None, s1))
      else (None, s))"

definition page_request :: "string \<Rightarrow> json \<Rightarrow> kwargs \<Rightarrow> json \<Rightarrow> user \<Rightarrow> request" where
  "page_request u page_count kw cursor usr =
     \<lparr>url = u,
      params = [(''secUid'', sec_uid usr), (''count'', page_count), (''cursor'', cursor)],
      headers = kwargs_get kw ''headers'',
      session = kwargs_get kw ''session'',
      session_index = kwargs_get kw ''session_index''\<rparr>"

text \<open>
  What a caller who drains the generator observes: the items yielded, the page requests
  with their responses, how the generator ended, and the state it left. \<open>OutOfFuel\<close> is a
  generator that is still running after the given number of page fetches.
\<close>

datatype outcome = Returned | Raised error | OutOfFuel

record ('v, 'w) run =
  yielded :: "'v list"
  fetches :: "(request \<times> json) list"
  outcome :: outcome
  final :: "'w state"

definition after_page :: "'v list \<Rightarrow> request \<times> json \<Rightarrow> ('v, 'w) run \<Rightarrow> ('v, 'w) run" where
  "after_page ys f r = r\<lparr>yielded := ys @ yielded r, fetches := f # fetches r\<rparr>"

text \<open>
  The \<^verbatim>\<open>while found < count\<close> loop, written three times in the source with a different
  endpoint \<open>u\<close>, list key \<open>key\<close>, \<^verbatim>\<open>count\<close> parameter \<open>pc\<close> and item factory \<open>mk\<close>
  (\<^verbatim>\<open>parent.video\<close>, \<^verbatim>\<open>parent.playlist\<close>). The first argument bounds the number of
  page fetches.
\<close>

fun pagination_loop ::
  "nat \<Rightarrow> 'w transport \<Rightarrow> string \<Rightarrow> string \<Rightarrow> json \<Rightarrow> (json \<Rightarrow> 'v) \<Rightarrow> kwargs \<Rightarrow>
   int \<Rightarrow> json \<Rightarrow> int \<Rightarrow> 'w state \<Rightarrow> ('v, 'w) run" where
  "pagination_loop 0 t u key pc mk kw count cursor found s =
     \<lparr>yielded = [], fetches = [],
      outcome = (if found < count then OutOfFuel else Returned), final = s\<rparr>"
| "pagination_loop (Suc n) t u key pc mk kw count cursor found s =
     (if \<not> found < count
      then \<lparr>yielded = [], fetches = [], outcome = Returned, final = s\<rparr>
      else
       (case make_request t (page_request u pc kw cursor (self s)) s of
          (resp, s1) \<Rightarrow>
            (let f = (page_request u pc kw cursor (self s), resp) in
             if resp = JNull
             then \<lparr>yielded = [], fetches = [f],
                   outcome = Raised InvalidResponseException, final = s1\<rparr>
             else
              (case py_get resp key (JList []) of
                 Inl e \<Rightarrow> \<lparr>yielded = [], fetches = [f], outcome = Raised e, final = s1\<rparr>
               | Inr lst \<Rightarrow>
                  (case py_iter lst of
                     Inl e \<Rightarrow> \<lparr>yielded = [], fetches = [f], outcome = Raised e, final = s1\<rparr>
                   | Inr items \<Rightarrow>
                      (case py_get resp ''hasMore'' (JBool False) of
                         Inl e \<Rightarrow>
                           \<lparr>yielded = map mk items, fetches = [f],
                            outcome = Raised e, final = s1\<rparr>
                       | Inr hm \<Rightarrow>
                           if \<not> truthy hm
                           then \<lparr>yielded = map mk items, fetches = [f],
                                 outcome = Returned, final = s1\<rparr>
                           else
                            (case py_get resp ''cursor'' JNull of
                               Inl e \<Rightarrow>
                                 \<lparr>yielded = map mk items, fetches = [f],
                                  outcome = Raised e, final = s1\<rparr>
                             | Inr c \<Rightarrow>
                                 after_page (map mk items) f
                                   (pagination_loop n t u key pc mk kw count c
                                      (found + int (length items)) s1))))))))"

definition playlists ::
  "nat \<Rightarrow> 'w transport \<Rightarrow> (json \<Rightarrow> 'p) \<Rightarrow> kwargs \<Rightarrow> int \<Rightarrow> json \<Rightarrow> 'w state \<Rightarrow> ('p, 'w) run" where
  "playlists fuel t playlist kw count cursor s =
     (case ensure_sec_uid t kw s of
        (Some e, s1) \<Rightarrow> \<lparr>yielded = [], fetches = [], outcome = Raised e, final = s1\<rparr>
      | (None, s1) \<Rightarrow>
          pagination_loop fuel t ''https://www.tiktok.com/api/user/playlist'' ''playList''
            (JInt (min count 20)) playlist kw count cursor 0 s1)"

definition videos ::
  "nat \<Rightarrow> 'w transport \<Rightarrow> (json \<Rightarrow> 'v) \<Rightarrow> kwargs \<Rightarrow> int \<Rightarrow> json \<Rightarrow> 'w state \<Rightarrow> ('v, 'w) run" where
  "videos fuel t video kw count cursor s =
     (case ensure_sec_uid t kw s of
        (Some e, s1) \<Rightarrow> \<lparr>yielded = [], fetches = [], outcome = Raised e, final = s1\<rparr>
      | (None, s1) \<Rightarrow>
          pagination_loop fuel t ''https://www.tiktok.com/api/post/item_list/'' ''itemList''
            (JInt 35) video kw count cursor 0 s1)"

definition liked ::
  "nat \<Rightarrow> 'w transport \<Rightarrow> (json \<Rightarrow> 'v) \<Rightarrow> kwargs \<Rightarrow> int \<Rightarrow> json \<Rightarrow> 'w state \<Rightarrow> ('v, 'w) run" where
  "liked fuel t video kw count cursor s =
     (case ensure_sec_uid t kw s of
        (Some e, s1) \<Rightarrow> \<lparr>yielded = [], fetches = [], outcome = Raised e, final = s1\<rparr>
      | (None, s1) \<Rightarrow>
          pagination_loop fuel t ''https://www.tiktok.com/api/favorite/item_list'' ''itemList''
            (JInt 35) video kw count cursor 0 s1)"

text \<open>
  \<^verbatim>\<open>User.videos_page\<close>: one page, returned as a dictionary whose \<^verbatim>\<open>videos\<close> entry
  holds the constructed items and whose other two entries hold raw JSON.
\<close>

datatype 'v pyval = Objects "'v list" | Json json

definition videos_page ::
  "'w transport \<Rightarrow> (json \<Rightarrow> 'v) \<Rightarrow> kwargs \<Rightarrow> int \<Rightarrow> json \<Rightarrow> 'w state \<Rightarrow>
   (error + (string \<times> 'v pyval) list) \<times> 'w state" where
  "videos_page t video kw count cursor s =
     (case ensure_sec_uid t kw s of
        (Some e, s1) \<Rightarrow> (Inl e, s1)
      | (None, s1) \<Rightarrow>
         (case make_request t
                 (page_request ''https://www.tiktok.com/api/post/item_list/''
                    (JInt (min count 35)) kw cursor (self s1)) s1 of
            (resp, s2) \<Rightarrow>
              if resp = JNull then (Inl InvalidResponseException, s2)
              else
               (case py_get resp ''itemList'' (JList []) of
                  Inl e \<Rightarrow> (Inl e, s2)
                | Inr lst \<Rightarrow>
                   (case py_iter lst of
                      Inl e \<Rightarrow> (Inl e, s2)
                    | Inr items \<Rightarrow>
                       (case py_get resp ''cursor'' JNull of
                          Inl e \<Rightarrow> (Inl e, s2)
                        | Inr c \<Rightarrow>
                           (case py_get resp ''hasMore'' (JBool False) of
                              Inl e \<Rightarrow> (Inl e, s2)
                            | Inr hm \<Rightarrow>
                                (Inr [(''videos'', Objects (map video items)),
                                      (''cursor'', Json c),
                                      (''hasMore'', Json hm)], s2)))))))"

section \<open>Reading a run\<close>

text \<open>The raw items of a page response, empty when the response has none to iterate.\<close>

definition page_items :: "string \<Rightarrow> json \<Rightarrow> json list" where
  "page_items key resp =
     (case py_get resp key (JList []) of
        Inl e \<Rightarrow> []
      | Inr lst \<Rightarrow> (case py_iter lst of Inl e \<Rightarrow> [] | Inr items \<Rightarrow> items))"

text \<open>\<^verbatim>\<open>resp.get("hasMore", False)\<close> as a truth value; a response without the method
  has no continuation to report.\<close>

definition has_more :: "json \<Rightarrow> bool" where
  "has_more resp =
     (case py_get resp ''hasMore'' (JBool False) of Inl e \<Rightarrow> False | Inr hm \<Rightarrow> truthy hm)"

definition pages :: "('v, 'w) run \<Rightarrow> json list" where
  "pages r = map snd (fetches r)"

text \<open>A transport that answers from a fixed script and \<^verbatim>\<open>None\<close> once it is exhausted.\<close>

definition scripted :: "json list transport" where
  "scripted w req = (case w of [] \<Rightarrow> (JNull, []) | r # rs \<Rightarrow> (r, rs))"

definition start :: "user \<Rightarrow> 'w \<Rightarrow> 'w state" where
  "start u w = \<lparr>self = u, world = w, sent = [], logged = []\<rparr>"

text \<open>A page response whose list can be iterated: \<^verbatim>\<open>resp.get(key, [])\<close> succeeds
  and the \<^verbatim>\<open>for\<close> loop over it does not raise.\<close>

definition good_page :: "string \<Rightarrow> json \<Rightarrow> bool" where
  "good_page key resp =
     (case py_get resp key (JList []) of
        Inl e \<Rightarrow> False
      | Inr lst \<Rightarrow> (case py_iter lst of Inl e \<Rightarrow> False | Inr items \<Rightarrow> True))"

text \<open>\<^verbatim>\<open>User.__init__\<close> with a payload: the identifiers are assigned, then the payload
  is stored and parsed.\<close>

definition init_user_data :: "json \<Rightarrow> json \<Rightarrow> json \<Rightarrow> json \<Rightarrow> 'w state \<Rightarrow> error + 'w state" where
  "init_user_data un i sec data s =
     extract_from_data (s\<lparr>self := (init_user un i sec)\<lparr>as_dict := Some data\<rparr>\<rparr>)"

text \<open>
  The three generator calls on one entity, each with the list key it reads and the
  \<^verbatim>\<open>count\<close> parameter it sends.
\<close>

definition pagination_calls ::
  "nat \<Rightarrow> 'w transport \<Rightarrow> (json \<Rightarrow> 'v) \<Rightarrow> kwargs \<Rightarrow> int \<Rightarrow> json \<Rightarrow> 'w state \<Rightarrow>
   (('v, 'w) run \<times> string \<times> json) set" where
  "pagination_calls fuel t mk kw count cursor s =
     {(videos fuel t mk kw count cursor s, ''itemList'', JInt 35),
      (liked fuel t mk kw count cursor s, ''itemList'', JInt 35),
      (playlists fuel t mk kw count cursor s, ''playList'', JInt (min count 20))}"

definition always :: "json \<Rightarrow> unit transport" where
  "always resp w req = (resp, w)"

definition bob :: user where
  "bob = init_user (JStr ''bob'') JNull JNull"

definition bob_known :: user where
  "bob_known = init_user (JStr ''bob'') (JStr ''1'') (JStr ''s1'')"

definition item :: "string \<Rightarrow> json" where
  "item i = JObj [(''id'', JStr i)]"

definition page :: "json list \<Rightarrow> string \<Rightarrow> bool \<Rightarrow> json" where
  "page xs c b = JObj [(''itemList'', JList xs), (''cursor'', JStr c), (''hasMore'', JBool b)]"

definition profile :: "json \<Rightarrow> json" where
  "profile d = JObj [(''userInfo'', JObj [(''user'', d)])]"

text \<open>Concrete calls: runs of \<^verbatim>\<open>videos\<close> against a scripted transport.\<close>

definition one_requested :: "(json, json list) run" where
  "one_requested =
     videos 2 scripted id [] 1 (JInt 0)
       (start bob_known [page [item ''a'', item ''b'', item ''c''] ''10'' True])"

definition null_second :: "(json, json list) run" where
  "null_second =
     videos 3 scripted id [] 10 (JInt 0)
       (start bob_known [page [item ''a'', item ''b''] ''10'' True])"

definition stops_early :: "(json, json list) run" where
  "stops_early =
     videos 5 scripted id [] 10 (JInt 0)
       (start bob_known
          [page [item ''a'', item ''b''] ''10'' True,
           JObj [(''itemList'', JList [item ''c''])],
           page [item ''d''] ''12'' True])"

definition hung :: "(json, unit) run" where
  "hung = videos 3 (always (JObj [(''hasMore'', JBool True)])) id [] 30 (JInt 0) (start bob_known ())"

definition failed_once :: "json list state" where
  "failed_once = snd (info scripted [] (start bob [profile (JObj []), profile (JObj [])]))"

text \<open>
  Reading a run against the transport: the answers the transport gives to a list of
  requests sent in order, the cursor and the continuation flag a response carries, and the
  cursor sent with each request of a run (the starting one, then the previous response's).
\<close>

fun replay :: "'w transport \<Rightarrow> 'w \<Rightarrow> request list \<Rightarrow> json list" where
  "replay t w [] = []"
| "replay t w (q # qs) = (case t w q of (resp, w') \<Rightarrow> resp # replay t w' qs)"

definition next_cursor :: "json \<Rightarrow> json" where
  "next_cursor resp = (case py_get resp ''cursor'' JNull of Inl e \<Rightarrow> JNull | Inr c \<Rightarrow> c)"

fun cursors :: "json \<Rightarrow> json list \<Rightarrow> json list" where
  "cursors c [] = []"
| "cursors c (p # ps) = c # cursors (next_cursor p) ps"

definition more_flag :: "json \<Rightarrow> json" where
  "more_flag resp =
     (case py_get resp ''hasMore'' (JBool False) of Inl e \<Rightarrow> JBool False | Inr hm \<Rightarrow> hm)"

text \<open>The three generator calls again, each with its list key, its \<^verbatim>\<open>count\<close>
  parameter and its endpoint.\<close>

definition pagination_endpoints ::
  "nat \<Rightarrow> 'w transport \<Rightarrow> (json \<Rightarrow> 'v) \<Rightarrow> kwargs \<Rightarrow> int \<Rightarrow> json \<Rightarrow> 'w state \<Rightarrow>
   (('v, 'w) run \<times> string \<times> json \<times> string) set" where
  "pagination_endpoints fuel t mk kw count cursor s =
     {(videos fuel t mk kw count cursor s, ''itemList'', JInt 35,
       ''https://www.tiktok.com/api/post/item_list/''),
      (liked fuel t mk kw count cursor s, ''itemList'', JInt 35,
       ''https://www.tiktok.com/api/favorite/item_list''),
      (playlists fuel t mk kw count cursor s, ''playList'', JInt (min count 20),
       ''https://www.tiktok.com/api/user/playlist'')}"

definition one_liked :: "(json, json list) run" where
  "one_liked =
     liked 2 scripted id [] 1 (JInt 0)
       (start bob_known [page [item ''a'', item ''b'', item ''c''] ''10'' True])"

definition one_playlist :: "(json, json list) run" where
  "one_playlist =
     playlists 2 scripted id [] 1 (JInt 0)
       (start bob_known
          [JObj [(''playList'', JList [item ''a'', item ''b'', item ''c'']),
                 (''cursor'', JStr ''10''), (''hasMore'', JBool True)]])"

definition null_sec_state :: "json list state" where
  "null_sec_state =
     start bob [profile (JObj [(''id'', JStr ''1''), (''secUid'', JNull), (''uniqueId'', JStr ''bob'')])]"

definition page_call_state :: "json list state" where
  "page_call_state =
     start bob
       [profile (JObj [(''id'', JStr ''1''), (''secUid'', JStr ''s1''), (''uniqueId'', JStr ''bob'')]),
        page [item ''a'', item ''b''] ''10'' True,
        page [item ''c''] ''11'' False]"

section \<open>The loop, one page at a time\<close>

lemma has_more_obj: "has_more p \<Longrightarrow> \<exists>kvs. p = JObj kvs"
  by (cases p) (simp_all add: has_more_def)

lemma not_has_more_null [simp]: "\<not> has_more JNull"
  by (simp add: has_more_def)

lemma not_good_page_null [simp]: "\<not> good_page key JNull"
  by (simp add: good_page_def)

lemma page_items_null [simp]: "page_items key JNull = []"
  by (simp add: page_items_def)

lemma make_request_sent:
  "make_request t req s = (resp, s1) \<Longrightarrow>
   sent s1 = sent s @ [req] \<and> self s1 = self s \<and> logged s1 = logged s \<and> resp = fst (t (world s) req)"
  by (auto simp: make_request_def split: prod.splits)

lemma after_page_simps [simp]:
  "yielded (after_page ys f r) = ys @ yielded r"
  "fetches (after_page ys f r) = f # fetches r"
  "outcome (after_page ys f r) = outcome r"
  "final (after_page ys f r) = final r"
  "pages (after_page ys f r) = snd f # pages r"
  by (simp_all add: after_page_def pages_def)

lemma pages_simps [simp]:
  "pages \<lparr>yielded = ys, fetches = fs, outcome = oc, final = s\<rparr> = map snd fs"
  by (simp add: pages_def)

lemma loop_stop:
  "\<not> found < count \<Longrightarrow>
   pagination_loop n t u key pc mk kw count cursor found s =
   \<lparr>yielded = [], fetches = [], outcome = Returned, final = s\<rparr>"
  by (cases n) simp_all

lemma loop_step:
  assumes "found < count"
    and "make_request t (page_request u pc kw cursor (self s)) s = (resp, s1)"
  shows "(\<not> (has_more resp \<and> good_page key resp) \<and>
          (\<exists>oc. pagination_loop (Suc n) t u key pc mk kw count cursor found s =
                  \<lparr>yielded = map mk (page_items key resp),
                   fetches = [(page_request u pc kw cursor (self s), resp)],
                   outcome = oc, final = s1\<rparr> \<and>
                (resp = JNull \<longrightarrow> oc = Raised InvalidResponseException) \<and>
                (good_page key resp \<longrightarrow> oc = Returned) \<and>
                (\<not> good_page key resp \<longrightarrow> (\<exists>e. oc = Raised e)))) \<or>
         (has_more resp \<and> good_page key resp \<and>
          (\<exists>c. pagination_loop (Suc n) t u key pc mk kw count cursor found s =
                 after_page (map mk (page_items key resp))
                   (page_request u pc kw cursor (self s), resp)
                   (pagination_loop n t u key pc mk kw count c
                      (found + int (length (page_items key resp))) s1)))"
  using assms
  by (cases resp)
     (auto simp: Let_def has_more_def good_page_def page_items_def split: sum.splits)

lemma loop_induct:
  assumes stop_count: "\<And>n cursor found s. \<not> found < count \<Longrightarrow>
      P n cursor found s \<lparr>yielded = [], fetches = [], outcome = Returned, final = s\<rparr>"
    and fuel: "\<And>cursor found s. found < count \<Longrightarrow>
      P 0 cursor found s \<lparr>yielded = [], fetches = [], outcome = OutOfFuel, final = s\<rparr>"
    and page_end: "\<And>n cursor found s resp s1 oc. found < count \<Longrightarrow>
      make_request t (page_request u pc kw cursor (self s)) s = (resp, s1) \<Longrightarrow>
      \<not> (has_more resp \<and> good_page key resp) \<Longrightarrow>
      (resp = JNull \<longrightarrow> oc = Raised InvalidResponseException) \<Longrightarrow>
      (good_page key resp \<longrightarrow> oc = Returned) \<Longrightarrow>
      (\<not> good_page key resp \<longrightarrow> (\<exists>e. oc = Raised e)) \<Longrightarrow>
      P (Suc n) cursor found s
        \<lparr>yielded = map mk (page_items key resp),
         fetches = [(page_request u pc kw cursor (self s), resp)],
         outcome = oc, final = s1\<rparr>"
    and page_next: "\<And>n cursor found s resp s1 c. found < count \<Longrightarrow>
      make_request t (page_request u pc kw cursor (self s)) s = (resp, s1) \<Longrightarrow>
      has_more resp \<Longrightarrow> good_page key resp \<Longrightarrow>
      P n c (found + int (length (page_items key resp))) s1
        (pagination_loop n t u key pc mk kw count c
           (found + int (length (page_items key resp))) s1) \<Longrightarrow>
      P (Suc n) cursor found s
        (after_page (map mk (page_items key resp))
           (page_request u pc kw cursor (self s), resp)
           (pagination_loop n t u key pc mk kw count c
              (found + int (length (page_items key resp))) s1))"
  shows "P n cursor found s (pagination_loop n t u key pc mk kw count cursor found s)"
proof (induction n arbitrary: cursor found s)
  case 0
  show ?case
  proof (cases "found < count")
    case True
    with fuel[OF True, of cursor s] show ?thesis by simp
  next
    case False
    with stop_count[OF False, of 0 cursor s] show ?thesis by simp
  qed
next
  case (Suc n)
  show ?case
  proof (cases "found < count")
    case False
    with stop_count[OF False, of "Suc n" cursor s] show ?thesis
      by (simp only: loop_stop[OF False])
  next
    case True
    obtain resp s1 where mr: "make_request t (page_request u pc kw cursor (self s)) s = (resp, s1)"
      by (cases "make_request t (page_request u pc kw cursor (self s)) s")
    from loop_step[OF True mr, of key n mk] show ?thesis
    proof (elim disjE conjE exE)
      fix oc
      assume "\<not> (has_more resp \<and> good_page key resp)"
        and "pagination_loop (Suc n) t u key pc mk kw count cursor found s =
             \<lparr>yielded = map mk (page_items key resp),
              fetches = [(page_request u pc kw cursor (self s), resp)],
              outcome = oc, final = s1\<rparr>"
        and "resp = JNull \<longrightarrow> oc = Raised InvalidResponseException"
        and "good_page key resp \<longrightarrow> oc = Returned"
        and "\<not> good_page key resp \<longrightarrow> (\<exists>e. oc = Raised e)"
      then show ?thesis
        using page_end[OF True mr, of oc n] by simp
    next
      fix c
      assume "has_more resp" and "good_page key resp"
        and eq: "pagination_loop (Suc n) t u key pc mk kw count cursor found s =
             after_page (map mk (page_items key resp))
               (page_request u pc kw cursor (self s), resp)
               (pagination_loop n t u key pc mk kw count c
                  (found + int (length (page_items key resp))) s1)"
      then show ?thesis
        using page_next[OF True mr, of n c] Suc.IH[of c "found + int (length (page_items key resp))" s1]
        by (simp only: eq)
    qed
  qed
qed

lemma loop_yielded:
  "yielded (pagination_loop n t u key pc mk kw count cursor found s) =
   map mk (concat (map (page_items key) (pages (pagination_loop n t u key pc mk kw count cursor found s))))"
  by (rule loop_induct[where P = "\<lambda>n cursor found s r.
        yielded r = map mk (concat (map (page_items key) (pages r)))"]) simp_all

lemma loop_sent:
  "sent (final (pagination_loop n t u key pc mk kw count cursor found s)) =
   sent s @ map fst (fetches (pagination_loop n t u key pc mk kw count cursor found s))"
  by (rule loop_induct[where P = "\<lambda>n cursor found s r.
        sent (final r) = sent s @ map fst (fetches r)"])
     (auto dest!: make_request_sent)

lemma loop_self:
  "self (final (pagination_loop n t u key pc mk kw count cursor found s)) = self s"
  by (rule loop_induct[where P = "\<lambda>n cursor found s r. self (final r) = self s"])
     (auto dest!: make_request_sent)

lemma loop_logged:
  "logged (final (pagination_loop n t u key pc mk kw count cursor found s)) = logged s"
  by (rule loop_induct[where P = "\<lambda>n cursor found s r. logged (final r) = logged s"])
     (auto dest!: make_request_sent)

lemma loop_requests:
  "\<forall>f \<in> set (fetches (pagination_loop n t u key pc mk kw count cursor found s)).
     url (fst f) = u \<and> map_of (params (fst f)) ''secUid'' = Some (sec_uid (self s)) \<and>
     map_of (params (fst f)) ''count'' = Some pc"
  by (rule loop_induct[where P = "\<lambda>n cursor found s r. \<forall>f \<in> set (fetches r).
        url (fst f) = u \<and> map_of (params (fst f)) ''secUid'' = Some (sec_uid (self s)) \<and>
        map_of (params (fst f)) ''count'' = Some pc"])
     (auto simp: page_request_def dest!: make_request_sent)

lemma loop_prefix:
  "\<forall>ps q qs. pages (pagination_loop n t u key pc mk kw count cursor found s) = ps @ q # qs \<longrightarrow>
     found + int (length (concat (map (page_items key) ps))) < count \<and>
     (qs \<noteq> [] \<longrightarrow> has_more q \<and> good_page key q)"
proof (rule loop_induct[where P = "\<lambda>n cursor found s r. \<forall>ps q qs. pages r = ps @ q # qs \<longrightarrow>
     found + int (length (concat (map (page_items key) ps))) < count \<and>
     (qs \<noteq> [] \<longrightarrow> has_more q \<and> good_page key q)"], goal_cases)
  case (1 n cursor found s)
  show ?case by simp
next
  case (2 cursor found s)
  show ?case by simp
next
  case (3 n cursor found s resp s1 oc)
  then show ?case by (auto simp: Cons_eq_append_conv append_eq_Cons_conv)
next
  case (4 n cursor found s resp s1 c)
  show ?case
  proof (intro allI impI)
    fix ps q qs
    assume eq: "pages (after_page (map mk (page_items key resp))
                  (page_request u pc kw cursor (self s), resp)
                  (pagination_loop n t u key pc mk kw count c
                     (found + int (length (page_items key resp))) s1)) = ps @ q # qs"
    show "found + int (length (concat (map (page_items key) ps))) < count \<and>
          (qs \<noteq> [] \<longrightarrow> has_more q \<and> good_page key q)"
    proof (cases ps)
      case Nil
      with eq 4 show ?thesis by auto
    next
      case (Cons p ps')
      with eq have p: "p = resp"
        and rest: "pages (pagination_loop n t u key pc mk kw count c
               (found + int (length (page_items key resp))) s1) = ps' @ q # qs"
        by auto
      from 4(5) rest have
        "found + int (length (page_items key resp)) +
           int (length (concat (map (page_items key) ps'))) < count \<and>
         (qs \<noteq> [] \<longrightarrow> has_more q \<and> good_page key q)"
        by blast
      with Cons p show ?thesis by (simp add: algebra_simps)
    qed
  qed
qed

lemma loop_returned:
  "outcome (pagination_loop n t u key pc mk kw count cursor found s) = Returned \<longrightarrow>
   (pages (pagination_loop n t u key pc mk kw count cursor found s) = [] \<and> count \<le> found) \<or>
   (pages (pagination_loop n t u key pc mk kw count cursor found s) \<noteq> [] \<and>
    good_page key (last (pages (pagination_loop n t u key pc mk kw count cursor found s))) \<and>
    (\<not> has_more (last (pages (pagination_loop n t u key pc mk kw count cursor found s))) \<or>
     count \<le> found + int (length (concat (map (page_items key)
        (pages (pagination_loop n t u key pc mk kw count cursor found s)))))))"
  by (rule loop_induct[where P = "\<lambda>n cursor found s r. outcome r = Returned \<longrightarrow>
        (pages r = [] \<and> count \<le> found) \<or>
        (pages r \<noteq> [] \<and> good_page key (last (pages r)) \<and>
         (\<not> has_more (last (pages r)) \<or>
          count \<le> found + int (length (concat (map (page_items key) (pages r))))))"])
     (auto simp: algebra_simps)

lemma loop_out_of_fuel:
  "outcome (pagination_loop n t u key pc mk kw count cursor found s) = OutOfFuel \<longrightarrow>
   length (fetches (pagination_loop n t u key pc mk kw count cursor found s)) = n \<and>
   found + int (length (concat (map (page_items key)
        (pages (pagination_loop n t u key pc mk kw count cursor found s))))) < count"
  by (rule loop_induct[where P = "\<lambda>n cursor found s r. outcome r = OutOfFuel \<longrightarrow>
        length (fetches r) = n \<and>
        found + int (length (concat (map (page_items key) (pages r)))) < count"])
     (auto simp: algebra_simps)

lemma loop_last_outcome:
  "pages (pagination_loop n t u key pc mk kw count cursor found s) \<noteq> [] \<longrightarrow>
   (last (pages (pagination_loop n t u key pc mk kw count cursor found s)) = JNull \<longrightarrow>
      outcome (pagination_loop n t u key pc mk kw count cursor found s) = Raised InvalidResponseException) \<and>
   (good_page key (last (pages (pagination_loop n t u key pc mk kw count cursor found s))) \<and>
    \<not> has_more (last (pages (pagination_loop n t u key pc mk kw count cursor found s))) \<longrightarrow>
      outcome (pagination_loop n t u key pc mk kw count cursor found s) = Returned)"
  by (rule loop_induct[where P = "\<lambda>n cursor found s r. pages r \<noteq> [] \<longrightarrow>
        (last (pages r) = JNull \<longrightarrow> outcome r = Raised InvalidResponseException) \<and>
        (good_page key (last (pages r)) \<and> \<not> has_more (last (pages r)) \<longrightarrow> outcome r = Returned)"])
     auto

lemma loop_fetch_bound:
  "length (fetches (pagination_loop n t u key pc mk kw count cursor found s)) \<le> n"
  by (rule loop_induct[where P = "\<lambda>n cursor found s r. length (fetches r) \<le> n"]) auto

lemma loop_hung:
  assumes "\<forall>w req. has_more (fst (t w req)) \<and> good_page key (fst (t w req)) \<and>
             page_items key (fst (t w req)) = []"
  shows "found < count \<longrightarrow>
   outcome (pagination_loop n t u key pc mk kw count cursor found s) = OutOfFuel \<and>
   yielded (pagination_loop n t u key pc mk kw count cursor found s) = [] \<and>
   length (fetches (pagination_loop n t u key pc mk kw count cursor found s)) = n"
  using assms
  by (intro loop_induct[where P = "\<lambda>n cursor found s r. found < count \<longrightarrow>
        outcome r = OutOfFuel \<and> yielded r = [] \<and> length (fetches r) = n"])
     (auto dest!: make_request_sent)

lemma loop_raised:
  "outcome (pagination_loop n t u key pc mk kw count cursor found s) = Raised e \<longrightarrow>
   pages (pagination_loop n t u key pc mk kw count cursor found s) \<noteq> [] \<and>
   \<not> good_page key (last (pages (pagination_loop n t u key pc mk kw count cursor found s)))"
  by (rule loop_induct[where P = "\<lambda>n cursor found s r. outcome r = Raised e \<longrightarrow>
        pages r \<noteq> [] \<and> \<not> good_page key (last (pages r))"]) auto

lemma extract_from_data_Inr:
  "extract_from_data s = Inr s' \<Longrightarrow>
   sent s' = sent s \<and> world s' = world s \<and> as_dict (self s') = as_dict (self s)"
  by (auto simp: extract_from_data_def assign_identifiers_def log_if_none_def
      update_id_sec_uid_username_def
      split: option.splits json.splits sum.splits if_splits prod.splits)

lemma info_cases:
  "info t kw s = (res, s') \<Longrightarrow>
   (res = Inl TypeError \<and> s' = s) \<or> sent s' = sent s @ [info_request kw (self s)]"
  by (auto simp: info_def Let_def make_request_def dest!: extract_from_data_Inr
      split: if_splits prod.splits sum.splits)

lemma ensure_sec_uid_sent:
  "ensure_sec_uid t kw s = (eo, s1) \<Longrightarrow>
   (sec_uid (self s) \<noteq> JNull \<and> sec_uid (self s) \<noteq> JStr [] \<longrightarrow> s1 = s \<and> eo = None) \<and>
   (sent s1 = sent s \<or> sent s1 = sent s @ [info_request kw (self s)]) \<and>
   ((sec_uid (self s) = JNull \<or> sec_uid (self s) = JStr []) \<and> eo = None \<longrightarrow>
      sent s1 = sent s @ [info_request kw (self s)])"
  by (auto simp: ensure_sec_uid_def dest!: info_cases split: if_splits prod.splits sum.splits)

lemma call_cases:
  assumes "(r, key, pc) \<in> pagination_calls fuel t mk kw count cursor s"
  shows "(\<exists>e s1. ensure_sec_uid t kw s = (Some e, s1) \<and>
                 r = \<lparr>yielded = [], fetches = [], outcome = Raised e, final = s1\<rparr>) \<or>
         (\<exists>u s1. ensure_sec_uid t kw s = (None, s1) \<and>
                 r = pagination_loop fuel t u key pc mk kw count cursor 0 s1)"
  using assms
  by (auto simp: pagination_calls_def videos_def liked_def playlists_def
      split: prod.splits option.splits)

lemma call_sent:
  assumes "(r, key, pc) \<in> pagination_calls fuel t mk kw count cursor s"
  shows "\<exists>hyd. sent (final r) = sent s @ hyd @ map fst (fetches r) \<and> length hyd \<le> 1 \<and>
               (sec_uid (self s) \<noteq> JNull \<and> sec_uid (self s) \<noteq> JStr [] \<longrightarrow> hyd = [])"
  using call_cases[OF assms]
proof (elim disjE exE conjE)
  fix e s1
  assume "ensure_sec_uid t kw s = (Some e, s1)"
    and "r = \<lparr>yielded = [], fetches = [], outcome = Raised e, final = s1\<rparr>"
  then show ?thesis
    using ensure_sec_uid_sent[of t kw s "Some e" s1] by auto
next
  fix u s1
  assume "ensure_sec_uid t kw s = (None, s1)"
    and "r = pagination_loop fuel t u key pc mk kw count cursor 0 s1"
  then show ?thesis
    using ensure_sec_uid_sent[of t kw s None s1]
      loop_sent[of fuel t u key pc mk kw count cursor 0 s1] by auto
qed

lemma map_of_Some_key: "map_of kvs k = Some v \<Longrightarrow> k \<in> fst ` set kvs"
  by (metis map_of_eq_None_iff option.distinct(1))

lemma as_dict_update_neq: "as_dict u \<noteq> Some r \<Longrightarrow> u\<lparr>as_dict := Some r\<rparr> \<noteq> u"
  by (auto dest: arg_cong[where f = as_dict])

lemma assign_identifiers_Inr:
  "assign_identifiers data d s = Inr s' \<Longrightarrow>
   py_index d ''id'' = Inr (user_id (self s')) \<and>
   py_index d ''secUid'' = Inr (sec_uid (self s')) \<and>
   py_index d ''uniqueId'' = Inr (username (self s')) \<and>
   as_dict (self s') = as_dict (self s) \<and>
   logged s' = (if JNull \<in> {user_id (self s'), sec_uid (self s'), username (self s')}
                then logged s @ [data] else logged s)"
  by (auto simp: assign_identifiers_def read_identifiers_def log_if_none_def
      update_id_sec_uid_username_def split: sum.splits prod.splits if_splits)

lemma extract_from_data_profile:
  "extract_from_data s = Inr s' \<Longrightarrow>
   \<exists>data d. as_dict (self s) = Some data \<and>
     ((py_in ''userInfo'' data = Inr False \<and> d = data) \<or>
      (\<exists>ui. py_index data ''userInfo'' = Inr ui \<and> py_get ui ''user'' (JObj []) = Inr d)) \<and>
     assign_identifiers data d s = Inr s'"
  by (auto simp: extract_from_data_def map_of_eq_None_iff dest: map_of_Some_key
      split: option.splits json.splits sum.splits if_splits)

lemmas run_defs =
  videos_def ensure_sec_uid_def bob_known_def bob_def init_user_def start_def scripted_def
  always_def make_request_def page_request_def page_def item_def profile_def kwargs_get_def
  Let_def pages_def page_items_def has_more_def good_page_def eval_nat_numeral

lemma one_requested_eval:
  "yielded one_requested = [item ''a'', item ''b'', item ''c''] \<and>
   outcome one_requested = Returned \<and>
   pages one_requested = [page [item ''a'', item ''b'', item ''c''] ''10'' True]"
  by (simp add: one_requested_def run_defs)

lemma null_second_eval:
  "yielded null_second = [item ''a'', item ''b''] \<and>
   pages null_second = [page [item ''a'', item ''b''] ''10'' True, JNull]"
  by (simp add: null_second_def run_defs)

lemma stops_early_eval:
  "pages stops_early = [page [item ''a'', item ''b''] ''10'' True] @
      JObj [(''itemList'', JList [item ''c''])] # [] \<and>
   yielded stops_early = [item ''a'', item ''b'', item ''c'']"
  by (simp add: stops_early_def run_defs)

lemma make_request_world:
  "make_request t req s = (resp, s1) \<Longrightarrow> t (world s) req = (resp, world s1) \<and> self s1 = self s"
  by (auto simp: make_request_def split: prod.splits)

lemma loop_step_cursor:
  assumes "found < count"
    and "make_request t (page_request u pc kw cursor (self s)) s = (resp, s1)"
    and "has_more resp" and "good_page key resp"
  shows "pagination_loop (Suc n) t u key pc mk kw count cursor found s =
           after_page (map mk (page_items key resp))
             (page_request u pc kw cursor (self s), resp)
             (pagination_loop n t u key pc mk kw count (next_cursor resp)
                (found + int (length (page_items key resp))) s1)"
  using assms
  by (cases resp)
     (auto simp: Let_def has_more_def good_page_def page_items_def next_cursor_def
       split: sum.splits)

lemma loop_induct_cursor:
  assumes stop_count: "\<And>n cursor found s. \<not> found < count \<Longrightarrow>
      P n cursor found s \<lparr>yielded = [], fetches = [], outcome = Returned, final = s\<rparr>"
    and fuel: "\<And>cursor found s. found < count \<Longrightarrow>
      P 0 cursor found s \<lparr>yielded = [], fetches = [], outcome = OutOfFuel, final = s\<rparr>"
    and page_end: "\<And>n cursor found s resp s1 oc. found < count \<Longrightarrow>
      make_request t (page_request u pc kw cursor (self s)) s = (resp, s1) \<Longrightarrow>
      \<not> (has_more resp \<and> good_page key resp) \<Longrightarrow>
      (resp = JNull \<longrightarrow> oc = Raised InvalidResponseException) \<Longrightarrow>
      (good_page key resp \<longrightarrow> oc = Returned) \<Longrightarrow>
      (\<not> good_page key resp \<longrightarrow> (\<exists>e. oc = Raised e)) \<Longrightarrow>
      P (Suc n) cursor found s
        \<lparr>yielded = map mk (page_items key resp),
         fetches = [(page_request u pc kw cursor (self s), resp)],
         outcome = oc, final = s1\<rparr>"
    and page_next: "\<And>n cursor found s resp s1. found < count \<Longrightarrow>
      make_request t (page_request u pc kw cursor (self s)) s = (resp, s1) \<Longrightarrow>
      has_more resp \<Longrightarrow> good_page key resp \<Longrightarrow>
      P n (next_cursor resp) (found + int (length (page_items key resp))) s1
        (pagination_loop n t u key pc mk kw count (next_cursor resp)
           (found + int (length (page_items key resp))) s1) \<Longrightarrow>
      P (Suc n) cursor found s
        (after_page (map mk (page_items key resp))
           (page_request u pc kw cursor (self s), resp)
           (pagination_loop n t u key pc mk kw count (next_cursor resp)
              (found + int (length (page_items key resp))) s1))"
  shows "P n cursor found s (pagination_loop n t u key pc mk kw count cursor found s)"
proof (induction n arbitrary: cursor found s)
  case 0
  show ?case
  proof (cases "found < count")
    case True
    with fuel[OF True, of cursor s] show ?thesis by simp
  next
    case False
    with stop_count[OF False, of 0 cursor s] show ?thesis by simp
  qed
next
  case (Suc n)
  show ?case
  proof (cases "found < count")
    case False
    with stop_count[OF False, of "Suc n" cursor s] show ?thesis
      by (simp only: loop_stop[OF False])
  next
    case True
    obtain resp s1 where mr: "make_request t (page_request u pc kw cursor (self s)) s = (resp, s1)"
      by (cases "make_request t (page_request u pc kw cursor (self s)) s")
    show ?thesis
    proof (cases "has_more resp \<and> good_page key resp")
      case True
      then have hm: "has_more resp" and gp: "good_page key resp" by simp_all
      show ?thesis
        using page_next[OF \<open>found < count\<close> mr hm gp]
          Suc.IH[of "next_cursor resp" "found + int (length (page_items key resp))" s1]
        by (simp only: loop_step_cursor[OF \<open>found < count\<close> mr hm gp])
    next
      case False
      from loop_step[OF \<open>found < count\<close> mr, of key n mk] False
      obtain oc where eq: "pagination_loop (Suc n) t u key pc mk kw count cursor found s =
             \<lparr>yielded = map mk (page_items key resp),
              fetches = [(page_request u pc kw cursor (self s), resp)],
              outcome = oc, final = s1\<rparr>"
        and "resp = JNull \<longrightarrow> oc = Raised InvalidResponseException"
        and "good_page key resp \<longrightarrow> oc = Returned"
        and "\<not> good_page key resp \<longrightarrow> (\<exists>e. oc = Raised e)"
        by blast
      then show ?thesis
        using page_end[OF \<open>found < count\<close> mr False, of oc n] by simp
    qed
  qed
qed

lemma loop_replay:
  "pages (pagination_loop n t u key pc mk kw count cursor found s) =
   replay t (world s) (map fst (fetches (pagination_loop n t u key pc mk kw count cursor found s)))"
  by (rule loop_induct_cursor[where P = "\<lambda>n cursor found s r.
        pages r = replay t (world s) (map fst (fetches r))"])
     (auto dest!: make_request_world)

lemma loop_cursors:
  "map fst (fetches (pagination_loop n t u key pc mk kw count cursor found s)) =
   map (\<lambda>c. page_request u pc kw c (self s))
     (cursors cursor (pages (pagination_loop n t u key pc mk kw count cursor found s)))"
  by (rule loop_induct_cursor[where P = "\<lambda>n cursor found s r.
        map fst (fetches r) = map (\<lambda>c. page_request u pc kw c (self s)) (cursors cursor (pages r))"])
     (auto dest!: make_request_world)

lemma loop_returned_iff:
  "outcome (pagination_loop n t u key pc mk kw count cursor found s) = Returned \<longleftrightarrow>
   (pages (pagination_loop n t u key pc mk kw count cursor found s) = [] \<and> count \<le> found) \<or>
   (pages (pagination_loop n t u key pc mk kw count cursor found s) \<noteq> [] \<and>
    good_page key (last (pages (pagination_loop n t u key pc mk kw count cursor found s))) \<and>
    (\<not> has_more (last (pages (pagination_loop n t u key pc mk kw count cursor found s))) \<or>
     count \<le> found + int (length (concat (map (page_items key)
        (pages (pagination_loop n t u key pc mk kw count cursor found s)))))))"
  by (rule loop_induct_cursor[where P = "\<lambda>n cursor found s r. outcome r = Returned \<longleftrightarrow>
        (pages r = [] \<and> count \<le> found) \<or>
        (pages r \<noteq> [] \<and> good_page key (last (pages r)) \<and>
         (\<not> has_more (last (pages r)) \<or>
          count \<le> found + int (length (concat (map (page_items key) (pages r))))))"])
     (auto simp: algebra_simps)

lemma loop_out_of_fuel_iff:
  "outcome (pagination_loop n t u key pc mk kw count cursor found s) = OutOfFuel \<longleftrightarrow>
   length (pages (pagination_loop n t u key pc mk kw count cursor found s)) = n \<and>
   found + int (length (concat (map (page_items key)
        (pages (pagination_loop n t u key pc mk kw count cursor found s))))) < count \<and>
   (pages (pagination_loop n t u key pc mk kw count cursor found s) \<noteq> [] \<longrightarrow>
    has_more (last (pages (pagination_loop n t u key pc mk kw count cursor found s))) \<and>
    good_page key (last (pages (pagination_loop n t u key pc mk kw count cursor found s))))"
  by (rule loop_induct_cursor[where P = "\<lambda>n cursor found s r. outcome r = OutOfFuel \<longleftrightarrow>
        length (pages r) = n \<and>
        found + int (length (concat (map (page_items key) (pages r)))) < count \<and>
        (pages r \<noteq> [] \<longrightarrow> has_more (last (pages r)) \<and> good_page key (last (pages r)))"])
     (auto simp: algebra_simps)

lemma loop_raised_iff:
  "(\<exists>e. outcome (pagination_loop n t u key pc mk kw count cursor found s) = Raised e) \<longleftrightarrow>
   pages (pagination_loop n t u key pc mk kw count cursor found s) \<noteq> [] \<and>
   \<not> good_page key (last (pages (pagination_loop n t u key pc mk kw count cursor found s)))"
  by (rule loop_induct_cursor[where P = "\<lambda>n cursor found s r. (\<exists>e. outcome r = Raised e) \<longleftrightarrow>
        pages r \<noteq> [] \<and> \<not> good_page key (last (pages r))"])
     auto

lemma endpoint_cases:
  assumes "(r, key, pc, u) \<in> pagination_endpoints fuel t mk kw count cursor s"
    and "ensure_sec_uid t kw s = (eo, s1)"
  shows "(\<forall>e. eo = Some e \<longrightarrow>
            r = \<lparr>yielded = [], fetches = [], outcome = Raised e, final = s1\<rparr>) \<and>
         (eo = None \<longrightarrow> r = pagination_loop fuel t u key pc mk kw count cursor 0 s1)"
  using assms
  by (auto simp: pagination_endpoints_def videos_def liked_def playlists_def
      split: prod.splits option.splits)

lemma three_runs_eval:
  "yielded one_requested = [item ''a'', item ''b'', item ''c''] \<and>
   outcome one_requested = Returned \<and>
   yielded one_liked = [item ''a'', item ''b'', item ''c''] \<and>
   outcome one_liked = Returned \<and>
   yielded one_playlist = [item ''a'', item ''b'', item ''c''] \<and>
   outcome one_playlist = Returned"
  by (simp add: one_requested_def one_liked_def one_playlist_def liked_def playlists_def run_defs)

lemma ensure_known:
  "ensure_sec_uid scripted [] (start bob_known w) = (None, start bob_known w)"
  by (simp add: ensure_sec_uid_def start_def bob_known_def init_user_def)

lemma info_returns:
  assumes "truthy (username (self s)) \<or> truthy (sec_uid (self s))"
    and "t (world s) (info_request kw (self s)) = (resp, w')"
    and "(py_in ''userInfo'' resp = Inr False \<and> d = resp) \<or>
         (\<exists>ui. py_index resp ''userInfo'' = Inr ui \<and> py_get ui ''user'' (JObj []) = Inr d)"
    and "py_index d ''id'' = Inr i"
    and "py_index d ''secUid'' = Inr sec"
    and "py_index d ''uniqueId'' = Inr un"
  shows "\<exists>s'. info t kw s = (Inr resp, s') \<and>
           user_id (self s') = i \<and> sec_uid (self s') = sec \<and> username (self s') = un \<and>
           as_dict (self s') = Some resp \<and>
           sent s' = sent s @ [info_request kw (self s)] \<and>
           logged s' = (if JNull \<in> {i, sec, un} then logged s @ [resp] else logged s)"
proof -
  from assms(4) obtain dk where d: "d = JObj dk" and idk: "map_of dk ''id'' = Some i"
    by (cases d) (auto split: option.splits)
  from idk have dne: "dk \<noteq> []" and din: "''id'' \<in> fst ` set dk"
    by (auto dest: map_of_Some_key)
  from assms(3) d assms(4) obtain kvs where resp: "resp = JObj kvs"
    by (cases resp) auto
  from assms(5,6) d have rd: "read_identifiers d = Inr (i, sec, un)"
    using idk by (auto simp: read_identifiers_def split: option.splits)
  have loc: "(map_of kvs ''userInfo'' = None \<and> d = resp) \<or>
        (\<exists>ui. map_of kvs ''userInfo'' = Some ui \<and> py_get ui ''user'' (JObj []) = Inr d)"
    using assms(3) resp by (auto simp: map_of_eq_None_iff split: option.splits)
  have pre: "\<not> (\<not> truthy (username (self s)) \<and> \<not> truthy (sec_uid (self s)))"
    using assms(1) by blast
  define S2 where "S2 = s\<lparr>world := w', sent := sent s @ [info_request kw (self s)],
                            self := (self s)\<lparr>as_dict := Some resp\<rparr>\<rparr>"
  have ex: "extract_from_data S2 = assign_identifiers resp d S2"
  proof -
    from loc show ?thesis
    proof
      assume "map_of kvs ''userInfo'' = None \<and> d = resp"
      then show ?thesis by (simp add: extract_from_data_def S2_def resp)
    next
      assume "\<exists>ui. map_of kvs ''userInfo'' = Some ui \<and> py_get ui ''user'' (JObj []) = Inr d"
      then obtain ui where "map_of kvs ''userInfo'' = Some ui" "py_get ui ''user'' (JObj []) = Inr d"
        by blast
      then show ?thesis
        by (simp add: extract_from_data_def S2_def resp d dne din)
    qed
  qed
  have as: "assign_identifiers resp d S2 =
     Inr (log_if_none resp (S2\<lparr>self := update_id_sec_uid_username i sec un (self S2)\<rparr>))"
    by (simp add: assign_identifiers_def rd)
  have inf: "info t kw s =
     (Inr resp, log_if_none resp (S2\<lparr>self := update_id_sec_uid_username i sec un (self S2)\<rparr>))"
    using pre assms(2) ex as
    by (simp add: info_def make_request_def Let_def S2_def resp)
  show ?thesis
    unfolding inf
    by (auto simp: log_if_none_def update_id_sec_uid_username_def S2_def)
qed

lemma info_Inr_identifiers:
  assumes "info t kw s = (Inr resp, s')"
  shows "\<exists>d. ((py_in ''userInfo'' resp = Inr False \<and> d = resp) \<or>
              (\<exists>ui. py_index resp ''userInfo'' = Inr ui \<and> py_get ui ''user'' (JObj []) = Inr d)) \<and>
             py_index d ''id'' = Inr (user_id (self s')) \<and>
             py_index d ''secUid'' = Inr (sec_uid (self s')) \<and>
             py_index d ''uniqueId'' = Inr (username (self s')) \<and>
             as_dict (self s') = Some resp \<and>
             logged s' = (if JNull \<in> {user_id (self s'), sec_uid (self s'), username (self s')}
                          then logged s @ [resp] else logged s)"
proof -
  from assms obtain s1 where
    mr: "make_request t (info_request kw (self s)) s = (resp, s1)" and
    ex: "extract_from_data (s1\<lparr>self := (self s1)\<lparr>as_dict := Some resp\<rparr>\<rparr>) = Inr s'"
    by (auto simp: info_def Let_def split: if_splits prod.splits sum.splits)
  from make_request_sent[OF mr] have lg: "logged s1 = logged s" by simp
  from extract_from_data_profile[OF ex] obtain d where
    d: "(py_in ''userInfo'' resp = Inr False \<and> d = resp) \<or>
        (\<exists>ui. py_index resp ''userInfo'' = Inr ui \<and> py_get ui ''user'' (JObj []) = Inr d)" and
    a: "assign_identifiers resp d (s1\<lparr>self := (self s1)\<lparr>as_dict := Some resp\<rparr>\<rparr>) = Inr s'"
    by auto
  from assign_identifiers_Inr[OF a] lg d show ?thesis by auto
qed

lemmas info_defs =
  info_def info_request_def extract_from_data_def assign_identifiers_def read_identifiers_def
  log_if_none_def update_id_sec_uid_username_def

section \<open>Pagination: what a caller receives\<close>

text \<open>
  C1. For every pagination call (\<^verbatim>\<open>videos\<close>, \<^verbatim>\<open>liked\<close>, \<^verbatim>\<open>playlists\<close>) requesting
  \<open>count\<close> items. When hydration raises, the generator raises the same error and
  fetches nothing. Otherwise: its requests go to its endpoint with the cursor of the
  previous response, and its pages are the transport's answers to them; every item of
  every fetched page is yielded, in order; a page is fetched only while fewer than
  \<open>count\<close> items have been yielded and only after a page that reported a
  continuation; with fuel and a positive count at least one page is fetched; so the
  caller receives fewer than \<open>count\<close> items plus the size of the last page, which may
  be more than \<open>count\<close>. The generator returns exactly when nothing was asked for or
  its last page, iterable, reported no continuation or brought the items up to
  \<open>count\<close>; it raises exactly when its last page cannot be iterated
  (\<^verbatim>\<open>InvalidResponseException\<close> for \<^verbatim>\<open>None\<close>); it is still running exactly when the
  fuel is spent with fewer than \<open>count\<close> items and a continuation pending.
\<close>

theorem pagination_yields_whole_pages:
  assumes "(r, key, pc, u) \<in> pagination_endpoints fuel t mk kw count cursor s"
    and "ensure_sec_uid t kw s = (eo, s1)"
  shows "(\<forall>e. eo = Some e \<longrightarrow>
            r = \<lparr>yielded = [], fetches = [], outcome = Raised e, final = s1\<rparr>) \<and>
         (eo = None \<longrightarrow>
            map fst (fetches r) =
              map (\<lambda>c. page_request u pc kw c (self s1)) (cursors cursor (pages r)) \<and>
            pages r = replay t (world s1) (map fst (fetches r)) \<and>
            yielded r = map mk (concat (map (page_items key) (pages r))) \<and>
            (\<forall>ps q qs. pages r = ps @ q # qs \<longrightarrow>
               int (length (concat (map (page_items key) ps))) < count \<and>
               (qs \<noteq> [] \<longrightarrow> has_more q \<and> good_page key q)) \<and>
            (0 < fuel \<and> 0 < count \<longrightarrow> pages r \<noteq> []) \<and>
            (pages r \<noteq> [] \<longrightarrow>
               int (length (yielded r)) <
                 count + int (length (page_items key (last (pages r))))) \<and>
            (outcome r = Returned \<longleftrightarrow>
               (pages r = [] \<and> count \<le> 0) \<or>
               (pages r \<noteq> [] \<and> good_page key (last (pages r)) \<and>
                (\<not> has_more (last (pages r)) \<or> count \<le> int (length (yielded r))))) \<and>
            (outcome r = OutOfFuel \<longleftrightarrow>
               length (pages r) = fuel \<and> int (length (yielded r)) < count \<and>
               (pages r \<noteq> [] \<longrightarrow>
                  has_more (last (pages r)) \<and> good_page key (last (pages r)))) \<and>
            ((\<exists>e. outcome r = Raised e) \<longleftrightarrow>
               pages r \<noteq> [] \<and> \<not> good_page key (last (pages r))) \<and>
            (pages r \<noteq> [] \<and> last (pages r) = JNull \<longrightarrow>
               outcome r = Raised InvalidResponseException))"
proof (intro conjI impI)
  show "\<forall>e. eo = Some e \<longrightarrow>
            r = \<lparr>yielded = [], fetches = [], outcome = Raised e, final = s1\<rparr>"
    using endpoint_cases[OF assms] by blast
next
  assume "eo = None"
  with endpoint_cases[OF assms]
  have r: "r = pagination_loop fuel t u key pc mk kw count cursor 0 s1" by blast
  show c: "map fst (fetches r) =
              map (\<lambda>c. page_request u pc kw c (self s1)) (cursors cursor (pages r))"
    unfolding r by (rule loop_cursors)
  show "pages r = replay t (world s1) (map fst (fetches r))"
    unfolding r by (rule loop_replay)
  show y: "yielded r = map mk (concat (map (page_items key) (pages r)))"
    unfolding r by (rule loop_yielded)
  show p: "\<forall>ps q qs. pages r = ps @ q # qs \<longrightarrow>
               int (length (concat (map (page_items key) ps))) < count \<and>
               (qs \<noteq> [] \<longrightarrow> has_more q \<and> good_page key q)"
    using loop_prefix[of fuel t u key pc mk kw count cursor 0 s1] unfolding r by simp
  show ret: "outcome r = Returned \<longleftrightarrow>
               (pages r = [] \<and> count \<le> 0) \<or>
               (pages r \<noteq> [] \<and> good_page key (last (pages r)) \<and>
                (\<not> has_more (last (pages r)) \<or> count \<le> int (length (yielded r))))"
    using loop_returned_iff[of fuel t u key pc mk kw count cursor 0 s1] y unfolding r by simp
  show oof: "outcome r = OutOfFuel \<longleftrightarrow>
               length (pages r) = fuel \<and> int (length (yielded r)) < count \<and>
               (pages r \<noteq> [] \<longrightarrow>
                  has_more (last (pages r)) \<and> good_page key (last (pages r)))"
    using loop_out_of_fuel_iff[of fuel t u key pc mk kw count cursor 0 s1] y unfolding r by simp
  show rai: "(\<exists>e. outcome r = Raised e) \<longleftrightarrow>
               pages r \<noteq> [] \<and> \<not> good_page key (last (pages r))"
    unfolding r by (rule loop_raised_iff)
  show "pages r \<noteq> []" if "0 < fuel \<and> 0 < count"
  proof (cases "outcome r")
    case Returned
    with ret that show ?thesis by auto
  next
    case (Raised e)
    with rai show ?thesis by blast
  next
    case OutOfFuel
    with oof that show ?thesis by auto
  qed
  show "int (length (yielded r)) < count + int (length (page_items key (last (pages r))))"
    if ne: "pages r \<noteq> []"
  proof -
    from ne have split: "pages r = butlast (pages r) @ last (pages r) # []" by simp
    with p have "int (length (concat (map (page_items key) (butlast (pages r))))) < count"
      by blast
    moreover have "length (yielded r) =
        length (concat (map (page_items key) (butlast (pages r)))) +
        length (page_items key (last (pages r)))"
      by (subst y, subst split) simp
    ultimately show ?thesis by simp
  qed
  show "outcome r = Raised InvalidResponseException"
    if "pages r \<noteq> [] \<and> last (pages r) = JNull"
    using loop_last_outcome[of fuel t u key pc mk kw count cursor 0 s1] that unfolding r
    by blast
qed

text \<open>One item requested from each of the three calls, a page of three delivered: all
  three items are yielded.\<close>

theorem pagination_yields_whole_pages_witness:
  "(one_requested, ''itemList'', JInt 35, ''https://www.tiktok.com/api/post/item_list/'') \<in>
     pagination_endpoints 2 scripted id [] 1 (JInt 0)
       (start bob_known [page [item ''a'', item ''b'', item ''c''] ''10'' True]) \<and>
   (one_liked, ''itemList'', JInt 35, ''https://www.tiktok.com/api/favorite/item_list'') \<in>
     pagination_endpoints 2 scripted id [] 1 (JInt 0)
       (start bob_known [page [item ''a'', item ''b'', item ''c''] ''10'' True]) \<and>
   (one_playlist, ''playList'', JInt (min 1 20), ''https://www.tiktok.com/api/user/playlist'') \<in>
     pagination_endpoints 2 scripted id [] 1 (JInt 0)
       (start bob_known
          [JObj [(''playList'', JList [item ''a'', item ''b'', item ''c'']),
                 (''cursor'', JStr ''10''), (''hasMore'', JBool True)]]) \<and>
   ensure_sec_uid scripted [] (start bob_known [page [item ''a'', item ''b'', item ''c''] ''10'' True]) =
     (None, start bob_known [page [item ''a'', item ''b'', item ''c''] ''10'' True]) \<and>
   pages one_requested =
     replay scripted (world (start bob_known [page [item ''a'', item ''b'', item ''c''] ''10'' True]))
       (map fst (fetches one_requested)) \<and>
   pages one_requested \<noteq> [] \<and> pages one_liked \<noteq> [] \<and> pages one_playlist \<noteq> [] \<and>
   yielded one_requested = [item ''a'', item ''b'', item ''c''] \<and>
   outcome one_requested = Returned \<and>
   yielded one_liked = [item ''a'', item ''b'', item ''c''] \<and>
   outcome one_liked = Returned \<and>
   yielded one_playlist = [item ''a'', item ''b'', item ''c''] \<and>
   outcome one_playlist = Returned"
proof -
  have h1: "(one_requested, ''itemList'', JInt 35, ''https://www.tiktok.com/api/post/item_list/'') \<in>
     pagination_endpoints 2 scripted id [] 1 (JInt 0)
       (start bob_known [page [item ''a'', item ''b'', item ''c''] ''10'' True])"
    by (simp add: pagination_endpoints_def one_requested_def)
  have h2: "(one_liked, ''itemList'', JInt 35, ''https://www.tiktok.com/api/favorite/item_list'') \<in>
     pagination_endpoints 2 scripted id [] 1 (JInt 0)
       (start bob_known [page [item ''a'', item ''b'', item ''c''] ''10'' True])"
    by (simp add: pagination_endpoints_def one_liked_def)
  have h3: "(one_playlist, ''playList'', JInt (min 1 20), ''https://www.tiktok.com/api/user/playlist'') \<in>
     pagination_endpoints 2 scripted id [] 1 (JInt 0)
       (start bob_known
          [JObj [(''playList'', JList [item ''a'', item ''b'', item ''c'']),
                 (''cursor'', JStr ''10''), (''hasMore'', JBool True)]])"
    by (simp add: pagination_endpoints_def one_playlist_def)
  note e = ensure_known
  have f: "(0::nat) < 2 \<and> (0::int) < 1" by simp
  from pagination_yields_whole_pages[OF h1 e] f
  have a1: "pages one_requested =
     replay scripted (world (start bob_known [page [item ''a'', item ''b'', item ''c''] ''10'' True]))
       (map fst (fetches one_requested))"
    and b1: "pages one_requested \<noteq> []" by blast+
  from pagination_yields_whole_pages[OF h2 e] f
  have b2: "pages one_liked \<noteq> []" by blast
  from pagination_yields_whole_pages[OF h3 e] f
  have b3: "pages one_playlist \<noteq> []" by blast
  from h1 h2 h3 e a1 b1 b2 b3 three_runs_eval show ?thesis by blast
qed

text \<open>
  C2. For every pagination call, a \<^verbatim>\<open>None\<close> from the transport at any iteration ends
  the generator with \<^verbatim>\<open>InvalidResponseException\<close>: it is the last response received,
  no request follows it, and the items yielded are exactly those of the pages before it.
\<close>

theorem null_response_aborts:
  assumes "(r, key, pc) \<in> pagination_calls fuel t mk kw count cursor s"
    and "JNull \<in> set (pages r)"
  shows "outcome r = Raised InvalidResponseException \<and>
         (\<exists>ps. pages r = ps @ [JNull] \<and> JNull \<notin> set ps \<and>
               yielded r = map mk (concat (map (page_items key) ps))) \<and>
         (\<exists>hyd. sent (final r) = sent s @ hyd @ map fst (fetches r) \<and> length hyd \<le> 1)"
  using call_cases[OF assms(1)]
proof (elim disjE exE conjE)
  fix e s1
  assume "r = \<lparr>yielded = [], fetches = [], outcome = Raised e, final = s1\<rparr>"
  with assms(2) show ?thesis by simp
next
  fix u s1
  assume r: "r = pagination_loop fuel t u key pc mk kw count cursor 0 s1"
  from assms(2) obtain ps qs where split: "pages r = ps @ JNull # qs" and first: "JNull \<notin> set ps"
    by (meson split_list_first)
  have "qs = []"
    using loop_prefix[of fuel t u key pc mk kw count cursor 0 s1] split unfolding r
    by (metis not_has_more_null)
  with split have pg: "pages r = ps @ [JNull]" by simp
  then have "pages r \<noteq> []" and "last (pages r) = JNull" by simp_all
  then have oc: "outcome r = Raised InvalidResponseException"
    using loop_last_outcome[of fuel t u key pc mk kw count cursor 0 s1] unfolding r by blast
  have y: "yielded r = map mk (concat (map (page_items key) ps))"
    using loop_yielded[of fuel t u key pc mk kw count cursor 0 s1] pg unfolding r by simp
  from call_sent[OF assms(1)] oc pg first y show ?thesis by blast
qed

text \<open>The second page is \<^verbatim>\<open>None\<close>: the first page's two items were yielded, then the raise.\<close>

theorem null_response_aborts_witness:
  "(null_second, ''itemList'', JInt 35) \<in>
     pagination_calls 3 scripted id [] 10 (JInt 0)
       (start bob_known [page [item ''a'', item ''b''] ''10'' True]) \<and>
   JNull \<in> set (pages null_second) \<and>
   outcome null_second = Raised InvalidResponseException \<and>
   yielded null_second = [item ''a'', item ''b'']"
proof -
  have h: "(null_second, ''itemList'', JInt 35) \<in>
     pagination_calls 3 scripted id [] 10 (JInt 0)
       (start bob_known [page [item ''a'', item ''b''] ''10'' True])"
    by (simp add: pagination_calls_def null_second_def)
  have n: "JNull \<in> set (pages null_second)" using null_second_eval by simp
  from null_response_aborts[OF h n] h n null_second_eval show ?thesis by blast
qed

text \<open>
  C3, as the code has it. Within one pagination call the \<^verbatim>\<open>count\<close> parameter of every
  page request is the same: 35 for \<^verbatim>\<open>videos\<close> and \<^verbatim>\<open>liked\<close>, and the minimum of the
  requested count and 20 for \<^verbatim>\<open>playlists\<close>. It does not depend on how many items
  remain to be found.
\<close>

theorem page_size_fixed_per_call:
  assumes "(r, key, pc) \<in> pagination_calls fuel t mk kw count cursor s"
  shows "(\<forall>f \<in> set (fetches r). map_of (params (fst f)) ''count'' = Some pc) \<and>
         pc = (if key = ''playList'' then JInt (min count 20) else JInt 35)"
proof -
  have pc: "pc = (if key = ''playList'' then JInt (min count 20) else JInt 35)"
    using assms by (auto simp: pagination_calls_def)
  have "\<forall>f \<in> set (fetches r). map_of (params (fst f)) ''count'' = Some pc"
    using call_cases[OF assms]
  proof (elim disjE exE conjE)
    fix e s1
    assume "r = \<lparr>yielded = [], fetches = [], outcome = Raised e, final = s1\<rparr>"
    then show ?thesis by simp
  next
    fix u s1
    assume r: "r = pagination_loop fuel t u key pc mk kw count cursor 0 s1"
    show ?thesis
      using loop_requests[of fuel t u key pc mk kw count cursor 0 s1] unfolding r by blast
  qed
  with pc show ?thesis by blast
qed

theorem page_size_fixed_per_call_witness:
  "(one_requested, ''itemList'', JInt 35) \<in>
     pagination_calls 2 scripted id [] 1 (JInt 0)
       (start bob_known [page [item ''a'', item ''b'', item ''c''] ''10'' True]) \<and>
   hd (fetches one_requested) \<in> set (fetches one_requested) \<and>
   map_of (params (fst (hd (fetches one_requested)))) ''count'' = Some (JInt 35)"
proof -
  have h: "(one_requested, ''itemList'', JInt 35) \<in>
     pagination_calls 2 scripted id [] 1 (JInt 0)
       (start bob_known [page [item ''a'', item ''b'', item ''c''] ''10'' True])"
    by (simp add: pagination_calls_def one_requested_def)
  have "fetches one_requested \<noteq> []"
    using one_requested_eval by (auto simp: pages_def)
  then have m: "hd (fetches one_requested) \<in> set (fetches one_requested)"
    by simp
  from page_size_fixed_per_call[OF h] m
  have c: "map_of (params (fst (hd (fetches one_requested)))) ''count'' = Some (JInt 35)"
    by blast
  show ?thesis
    by (rule conjI[OF h conjI[OF m c]])
qed

text \<open>
  C3 as stated fails: with one item requested, the first request of \<^verbatim>\<open>videos\<close> does not
  ask for the minimum of the remaining count \<open>1 - 0\<close> and 35.
\<close>

theorem page_size_is_remaining_counterexample:
  "map_of (params (fst (hd (fetches one_requested)))) ''count'' \<noteq> Some (JInt (min (1 - 0) 35))"
  by (simp add: one_requested_def run_defs)

text \<open>
  C4. For every pagination call, a response whose \<^verbatim>\<open>hasMore\<close> is false or absent is the
  last one fetched, whatever the requested count: no request follows it, and when its
  list can be iterated the generator returns after yielding the items of all pages up to
  and including it.
\<close>

theorem no_continuation_stops:
  assumes "(r, key, pc) \<in> pagination_calls fuel t mk kw count cursor s"
    and "pages r = ps @ q # qs"
    and "\<not> has_more q"
  shows "qs = [] \<and>
         (good_page key q \<longrightarrow>
            outcome r = Returned \<and>
            yielded r = map mk (concat (map (page_items key) ps) @ page_items key q)) \<and>
         (\<exists>hyd. sent (final r) = sent s @ hyd @ map fst (fetches r) \<and> length hyd \<le> 1) \<and>
         length (fetches r) = length ps + 1"
  using call_cases[OF assms(1)]
proof (elim disjE exE conjE)
  fix e s1
  assume "r = \<lparr>yielded = [], fetches = [], outcome = Raised e, final = s1\<rparr>"
  with assms(2) show ?thesis by simp
next
  fix u s1
  assume r: "r = pagination_loop fuel t u key pc mk kw count cursor 0 s1"
  have qs: "qs = []"
    using loop_prefix[of fuel t u key pc mk kw count cursor 0 s1] assms(2,3) unfolding r
    by blast
  with assms(2) have pg: "pages r = ps @ [q]" by simp
  then have ne: "pages r \<noteq> []" and la: "last (pages r) = q" by simp_all
  have oc: "good_page key q \<longrightarrow> outcome r = Returned"
    using loop_last_outcome[of fuel t u key pc mk kw count cursor 0 s1] ne la assms(3)
    unfolding r by blast
  have y: "yielded r = map mk (concat (map (page_items key) ps) @ page_items key q)"
    using loop_yielded[of fuel t u key pc mk kw count cursor 0 s1] pg unfolding r by simp
  have len: "length (fetches r) = length ps + 1"
    using pg by (metis length_append_singleton length_map pages_def Suc_eq_plus1)
  from call_sent[OF assms(1)] qs oc y len show ?thesis by blast
qed

text \<open>Ten items requested; the second page has no \<^verbatim>\<open>hasMore\<close>, so three items and two
  fetches are all there is, although the transport had a third page ready.\<close>

theorem no_continuation_stops_witness:
  "(stops_early, ''itemList'', JInt 35) \<in>
     pagination_calls 5 scripted id [] 10 (JInt 0)
       (start bob_known
          [page [item ''a'', item ''b''] ''10'' True,
           JObj [(''itemList'', JList [item ''c''])],
           page [item ''d''] ''12'' True]) \<and>
   pages stops_early = [page [item ''a'', item ''b''] ''10'' True] @
      JObj [(''itemList'', JList [item ''c''])] # [] \<and>
   \<not> has_more (JObj [(''itemList'', JList [item ''c''])]) \<and>
   good_page ''itemList'' (JObj [(''itemList'', JList [item ''c''])]) \<and>
   outcome stops_early = Returned \<and>
   length (fetches stops_early) = length [page [item ''a'', item ''b''] ''10'' True] + 1 \<and>
   yielded stops_early = [item ''a'', item ''b'', item ''c'']"
proof -
  have h: "(stops_early, ''itemList'', JInt 35) \<in>
     pagination_calls 5 scripted id [] 10 (JInt 0)
       (start bob_known
          [page [item ''a'', item ''b''] ''10'' True,
           JObj [(''itemList'', JList [item ''c''])],
           page [item ''d''] ''12'' True])"
    by (simp add: pagination_calls_def stops_early_def)
  have p: "pages stops_early = [page [item ''a'', item ''b''] ''10'' True] @
      JObj [(''itemList'', JList [item ''c''])] # []"
    using stops_early_eval by blast
  have m: "\<not> has_more (JObj [(''itemList'', JList [item ''c''])])"
    by (simp add: has_more_def)
  have g: "good_page ''itemList'' (JObj [(''itemList'', JList [item ''c''])])"
    by (simp add: good_page_def)
  from no_continuation_stops[OF h p m] h p m g stops_early_eval show ?thesis by blast
qed

section \<open>Hydration\<close>

text \<open>
  C5. \<^verbatim>\<open>info\<close> on an entity whose \<^verbatim>\<open>username\<close> and \<^verbatim>\<open>sec_uid\<close> are both unset
  (\<^verbatim>\<open>None\<close>, or empty) raises at once: the error is \<^verbatim>\<open>TypeError\<close>, and the state,
  with the requests sent and the transport in it, is what it was.
\<close>

theorem info_without_identifier:
  assumes "\<not> truthy (username (self s))" and "\<not> truthy (sec_uid (self s))"
  shows "info t kw s = (Inl TypeError, s)"
  using assms by (simp add: info_def)

theorem info_without_identifier_witness:
  "\<not> truthy (username (self (start (init_user JNull JNull JNull) [profile (item ''1'')]))) \<and>
   \<not> truthy (sec_uid (self (start (init_user JNull JNull JNull) [profile (item ''1'')]))) \<and>
   info scripted [] (start (init_user JNull JNull JNull) [profile (item ''1'')]) =
     (Inl TypeError, start (init_user JNull JNull JNull) [profile (item ''1'')]) \<and>
   sent (start (init_user JNull JNull JNull) [profile (item ''1'')]) = []"
proof -
  have a: "\<not> truthy (username (self (start (init_user JNull JNull JNull) [profile (item ''1'')])))"
    by (simp add: start_def init_user_def)
  have b: "\<not> truthy (sec_uid (self (start (init_user JNull JNull JNull) [profile (item ''1'')])))"
    by (simp add: start_def init_user_def)
  have c: "sent (start (init_user JNull JNull JNull) [profile (item ''1'')]) = []"
    by (simp add: start_def)
  from a b info_without_identifier[OF a b, of scripted "[]"] c show ?thesis by blast
qed

text \<open>
  C6, as the code has it. When \<^verbatim>\<open>info\<close> returns, the three identifiers are the values
  the payload's profile object (under \<^verbatim>\<open>userInfo.user\<close> when \<^verbatim>\<open>userInfo\<close> is
  present, the payload itself otherwise) holds for \<^verbatim>\<open>id\<close>, \<^verbatim>\<open>secUid\<close> and
  \<^verbatim>\<open>uniqueId\<close>, and the payload is stored. And \<^verbatim>\<open>info\<close> does return whenever the
  entity has a username or a \<^verbatim>\<open>sec_uid\<close> and the profile object of the transport's
  answer holds the three keys, whatever their values: the identifiers are then those
  values, \<^verbatim>\<open>None\<close> where the payload holds \<^verbatim>\<open>null\<close>, and the payload is logged
  exactly when one of them is \<^verbatim>\<open>None\<close>.
\<close>

theorem info_success_identifiers:
  "(info t kw s = (Inr resp, s') \<longrightarrow>
      (\<exists>d. ((py_in ''userInfo'' resp = Inr False \<and> d = resp) \<or>
            (\<exists>ui. py_index resp ''userInfo'' = Inr ui \<and> py_get ui ''user'' (JObj []) = Inr d)) \<and>
           py_index d ''id'' = Inr (user_id (self s')) \<and>
           py_index d ''secUid'' = Inr (sec_uid (self s')) \<and>
           py_index d ''uniqueId'' = Inr (username (self s')) \<and>
           as_dict (self s') = Some resp \<and>
           logged s' = (if JNull \<in> {user_id (self s'), sec_uid (self s'), username (self s')}
                        then logged s @ [resp] else logged s))) \<and>
   ((truthy (username (self s)) \<or> truthy (sec_uid (self s))) \<and>
    t (world s) (info_request kw (self s)) = (payload, w') \<and>
    ((py_in ''userInfo'' payload = Inr False \<and> p = payload) \<or>
     (\<exists>ui. py_index payload ''userInfo'' = Inr ui \<and> py_get ui ''user'' (JObj []) = Inr p)) \<and>
    py_index p ''id'' = Inr i \<and> py_index p ''secUid'' = Inr sec \<and>
    py_index p ''uniqueId'' = Inr un \<longrightarrow>
      (\<exists>s2. info t kw s = (Inr payload, s2) \<and>
            user_id (self s2) = i \<and> sec_uid (self s2) = sec \<and> username (self s2) = un \<and>
            as_dict (self s2) = Some payload \<and>
            sent s2 = sent s @ [info_request kw (self s)] \<and>
            logged s2 = (if JNull \<in> {i, sec, un} then logged s @ [payload] else logged s)))"
  using info_Inr_identifiers[of t kw s resp s'] info_returns[of s t kw payload w' p i sec un]
  by blast

text \<open>A profile whose \<^verbatim>\<open>secUid\<close> is \<^verbatim>\<open>null\<close>: the call returns the payload, leaves
  \<^verbatim>\<open>sec_uid\<close> \<^verbatim>\<open>None\<close> and logs the payload.\<close>

theorem info_success_identifiers_witness:
  "(truthy (username (self null_sec_state)) \<or> truthy (sec_uid (self null_sec_state))) \<and>
   scripted (world null_sec_state) (info_request [] (self null_sec_state)) =
     (profile (JObj [(''id'', JStr ''1''), (''secUid'', JNull), (''uniqueId'', JStr ''bob'')]), []) \<and>
   py_index (profile (JObj [(''id'', JStr ''1''), (''secUid'', JNull), (''uniqueId'', JStr ''bob'')]))
     ''userInfo'' =
     Inr (JObj [(''user'', JObj [(''id'', JStr ''1''), (''secUid'', JNull), (''uniqueId'', JStr ''bob'')])]) \<and>
   py_get (JObj [(''user'', JObj [(''id'', JStr ''1''), (''secUid'', JNull), (''uniqueId'', JStr ''bob'')])])
     ''user'' (JObj []) =
     Inr (JObj [(''id'', JStr ''1''), (''secUid'', JNull), (''uniqueId'', JStr ''bob'')]) \<and>
   py_index (JObj [(''id'', JStr ''1''), (''secUid'', JNull), (''uniqueId'', JStr ''bob'')]) ''id'' =
     Inr (JStr ''1'') \<and>
   py_index (JObj [(''id'', JStr ''1''), (''secUid'', JNull), (''uniqueId'', JStr ''bob'')]) ''secUid'' =
     Inr JNull \<and>
   py_index (JObj [(''id'', JStr ''1''), (''secUid'', JNull), (''uniqueId'', JStr ''bob'')]) ''uniqueId'' =
     Inr (JStr ''bob'') \<and>
   fst (info scripted [] null_sec_state) =
     Inr (profile (JObj [(''id'', JStr ''1''), (''secUid'', JNull), (''uniqueId'', JStr ''bob'')])) \<and>
   sec_uid (self (snd (info scripted [] null_sec_state))) = JNull \<and>
   logged (snd (info scripted [] null_sec_state)) =
     logged null_sec_state @
     [profile (JObj [(''id'', JStr ''1''), (''secUid'', JNull), (''uniqueId'', JStr ''bob'')])]"
proof -
  have a: "truthy (username (self null_sec_state)) \<or> truthy (sec_uid (self null_sec_state))"
    by (simp add: null_sec_state_def start_def bob_def init_user_def)
  have b: "scripted (world null_sec_state) (info_request [] (self null_sec_state)) =
     (profile (JObj [(''id'', JStr ''1''), (''secUid'', JNull), (''uniqueId'', JStr ''bob'')]), [])"
    by (simp add: null_sec_state_def start_def scripted_def)
  have c: "py_index (profile (JObj [(''id'', JStr ''1''), (''secUid'', JNull), (''uniqueId'', JStr ''bob'')]))
     ''userInfo'' =
     Inr (JObj [(''user'', JObj [(''id'', JStr ''1''), (''secUid'', JNull), (''uniqueId'', JStr ''bob'')])])"
    by (simp add: profile_def)
  have d: "py_get (JObj [(''user'', JObj [(''id'', JStr ''1''), (''secUid'', JNull), (''uniqueId'', JStr ''bob'')])])
     ''user'' (JObj []) =
     Inr (JObj [(''id'', JStr ''1''), (''secUid'', JNull), (''uniqueId'', JStr ''bob'')])"
    by simp
  have i: "py_index (JObj [(''id'', JStr ''1''), (''secUid'', JNull), (''uniqueId'', JStr ''bob'')]) ''id'' =
     Inr (JStr ''1'')" by simp
  have j: "py_index (JObj [(''id'', JStr ''1''), (''secUid'', JNull), (''uniqueId'', JStr ''bob'')]) ''secUid'' =
     Inr JNull" by simp
  have k: "py_index (JObj [(''id'', JStr ''1''), (''secUid'', JNull), (''uniqueId'', JStr ''bob'')]) ''uniqueId'' =
     Inr (JStr ''bob'')" by simp
  from c d have loc:
    "(py_in ''userInfo'' (profile (JObj [(''id'', JStr ''1''), (''secUid'', JNull), (''uniqueId'', JStr ''bob'')])) =
        Inr False \<and>
      JObj [(''id'', JStr ''1''), (''secUid'', JNull), (''uniqueId'', JStr ''bob'')] =
        profile (JObj [(''id'', JStr ''1''), (''secUid'', JNull), (''uniqueId'', JStr ''bob'')])) \<or>
     (\<exists>ui. py_index (profile (JObj [(''id'', JStr ''1''), (''secUid'', JNull), (''uniqueId'', JStr ''bob'')]))
              ''userInfo'' = Inr ui \<and>
           py_get ui ''user'' (JObj []) =
             Inr (JObj [(''id'', JStr ''1''), (''secUid'', JNull), (''uniqueId'', JStr ''bob'')]))"
    by blast
  from info_success_identifiers[where t = scripted and kw = "[]" and s = null_sec_state
      and payload = "profile (JObj [(''id'', JStr ''1''), (''secUid'', JNull), (''uniqueId'', JStr ''bob'')])"
      and w' = "[]"
      and p = "JObj [(''id'', JStr ''1''), (''secUid'', JNull), (''uniqueId'', JStr ''bob'')]"
      and i = "JStr ''1''" and sec = JNull and un = "JStr ''bob''"]
    a b loc i j k
  obtain s2 where
    r: "info scripted [] null_sec_state =
          (Inr (profile (JObj [(''id'', JStr ''1''), (''secUid'', JNull), (''uniqueId'', JStr ''bob'')])), s2)"
    and s: "sec_uid (self s2) = JNull"
    and l: "logged s2 = (if JNull \<in> {JStr ''1'', JNull, JStr ''bob''}
              then logged null_sec_state @
                [profile (JObj [(''id'', JStr ''1''), (''secUid'', JNull), (''uniqueId'', JStr ''bob'')])]
              else logged null_sec_state)"
    by blast
  from r have f: "fst (info scripted [] null_sec_state) =
     Inr (profile (JObj [(''id'', JStr ''1''), (''secUid'', JNull), (''uniqueId'', JStr ''bob'')]))"
    by simp
  from r s have g: "sec_uid (self (snd (info scripted [] null_sec_state))) = JNull"
    by simp
  from r l have h: "logged (snd (info scripted [] null_sec_state)) =
     logged null_sec_state @
     [profile (JObj [(''id'', JStr ''1''), (''secUid'', JNull), (''uniqueId'', JStr ''bob'')])]"
    by simp
  show ?thesis
    by (rule conjI[OF a conjI[OF b conjI[OF c conjI[OF d conjI[OF i conjI[OF j conjI[OF k
          conjI[OF f conjI[OF g h]]]]]]]]])
qed

text \<open>
  C6 as stated fails: an entity constructed with only a username, a profile whose
  \<^verbatim>\<open>secUid\<close> is \<^verbatim>\<open>null\<close>; \<^verbatim>\<open>info\<close> returns the payload and \<^verbatim>\<open>sec_uid\<close> is
  \<^verbatim>\<open>None\<close>.
\<close>

theorem info_success_null_identifier_counterexample:
  "fst (info scripted [] (start bob [profile (JObj [(''id'', JStr ''1''), (''secUid'', JNull), (''uniqueId'', JStr ''bob'')])])) =
     Inr (profile (JObj [(''id'', JStr ''1''), (''secUid'', JNull), (''uniqueId'', JStr ''bob'')])) \<and>
   sec_uid (self (snd (info scripted [] (start bob [profile (JObj [(''id'', JStr ''1''), (''secUid'', JNull), (''uniqueId'', JStr ''bob'')])])))) = JNull"
  by (simp add: info_def extract_from_data_def assign_identifiers_def read_identifiers_def
      log_if_none_def update_id_sec_uid_username_def info_request_def run_defs)

text \<open>
  C7. A payload whose nested profile is empty raises \<^verbatim>\<open>InvalidResponseException\<close>; a
  payload that lacks \<^verbatim>\<open>secUid\<close> under \<^verbatim>\<open>userInfo.user\<close>, or lacks \<^verbatim>\<open>id\<close> at the
  top level, raises \<^verbatim>\<open>KeyError\<close> instead, from the constructor as from \<^verbatim>\<open>info\<close>.
\<close>

theorem missing_field_raises_key_error:
  "init_user_data JNull JNull JNull (profile (JObj [(''id'', JStr ''1'')])) (start bob ()) =
     Inl (KeyError ''secUid'') \<and>
   init_user_data JNull JNull JNull (JObj []) (start bob ()) = Inl (KeyError ''id'') \<and>
   fst (info scripted [] (start bob [profile (JObj [(''id'', JStr ''1'')])])) =
     Inl (KeyError ''secUid'') \<and>
   init_user_data JNull JNull JNull (profile (JObj [])) (start bob ()) =
     Inl InvalidResponseException"
  by (simp add: init_user_data_def info_def info_request_def extract_from_data_def
      assign_identifiers_def read_identifiers_def run_defs)

text \<open>
  C8. \<^verbatim>\<open>videos_page\<close> with \<^verbatim>\<open>count=30\<close>. Hydration sends at most one request and
  none when \<^verbatim>\<open>sec_uid\<close> is known; when it raises, so does \<^verbatim>\<open>videos_page\<close>, with
  nothing more sent. Otherwise exactly one more request is sent, the page request with
  \<^verbatim>\<open>count\<close> 30, and the transport is left as that one request left it; for every
  answer whose list can be iterated, whatever its length, the result is the dictionary
  with the keys \<^verbatim>\<open>videos\<close>, \<^verbatim>\<open>cursor\<close> and \<^verbatim>\<open>hasMore\<close>, holding the items
  constructed from that answer, its cursor and its continuation flag; for any other
  answer the call raises (\<^verbatim>\<open>InvalidResponseException\<close> for \<^verbatim>\<open>None\<close>).
\<close>

theorem videos_page_one_fetch:
  assumes "ensure_sec_uid t kw s = (eo, s1)"
    and "t (world s1)
           (page_request ''https://www.tiktok.com/api/post/item_list/'' (JInt 30) kw cursor (self s1)) =
         (resp, w')"
  shows "(sec_uid (self s) \<noteq> JNull \<and> sec_uid (self s) \<noteq> JStr [] \<longrightarrow> eo = None \<and> s1 = s) \<and>
         (sent s1 = sent s \<or> sent s1 = sent s @ [info_request kw (self s)]) \<and>
         (\<forall>e. eo = Some e \<longrightarrow> videos_page t video kw 30 cursor s = (Inl e, s1)) \<and>
         (eo = None \<longrightarrow>
            (\<exists>res. videos_page t video kw 30 cursor s =
                     (res, s1\<lparr>world := w',
                              sent := sent s1 @
                                [page_request ''https://www.tiktok.com/api/post/item_list/''
                                   (JInt 30) kw cursor (self s1)]\<rparr>) \<and>
                   (good_page ''itemList'' resp \<longrightarrow>
                      res = Inr [(''videos'', Objects (map video (page_items ''itemList'' resp))),
                                 (''cursor'', Json (next_cursor resp)),
                                 (''hasMore'', Json (more_flag resp))]) \<and>
                   (resp = JNull \<longrightarrow> res = Inl InvalidResponseException) \<and>
                   (\<not> good_page ''itemList'' resp \<longrightarrow> (\<exists>e. res = Inl e))))"
proof (intro conjI)
  show "sec_uid (self s) \<noteq> JNull \<and> sec_uid (self s) \<noteq> JStr [] \<longrightarrow> eo = None \<and> s1 = s"
    using ensure_sec_uid_sent[OF assms(1)] by blast
  show "sent s1 = sent s \<or> sent s1 = sent s @ [info_request kw (self s)]"
    using ensure_sec_uid_sent[OF assms(1)] by blast
  show "\<forall>e. eo = Some e \<longrightarrow> videos_page t video kw 30 cursor s = (Inl e, s1)"
    using assms(1) by (simp add: videos_page_def)
  show "eo = None \<longrightarrow>
            (\<exists>res. videos_page t video kw 30 cursor s =
                     (res, s1\<lparr>world := w',
                              sent := sent s1 @
                                [page_request ''https://www.tiktok.com/api/post/item_list/''
                                   (JInt 30) kw cursor (self s1)]\<rparr>) \<and>
                   (good_page ''itemList'' resp \<longrightarrow>
                      res = Inr [(''videos'', Objects (map video (page_items ''itemList'' resp))),
                                 (''cursor'', Json (next_cursor resp)),
                                 (''hasMore'', Json (more_flag resp))]) \<and>
                   (resp = JNull \<longrightarrow> res = Inl InvalidResponseException) \<and>
                   (\<not> good_page ''itemList'' resp \<longrightarrow> (\<exists>e. res = Inl e)))"
    using assms
    by (cases resp)
       (auto simp: videos_page_def make_request_def good_page_def page_items_def
          next_cursor_def more_flag_def split: sum.splits)
qed

text \<open>An entity known by username only: one hydration request, one page request, the
  first page's two items returned and the second page left unread.\<close>

theorem videos_page_one_fetch_witness:
  "ensure_sec_uid scripted [] page_call_state =
     (None, snd (ensure_sec_uid scripted [] page_call_state)) \<and>
   scripted (world (snd (ensure_sec_uid scripted [] page_call_state)))
     (page_request ''https://www.tiktok.com/api/post/item_list/'' (JInt 30) [] (JInt 0)
        (self (snd (ensure_sec_uid scripted [] page_call_state)))) =
     (page [item ''a'', item ''b''] ''10'' True, [page [item ''c''] ''11'' False]) \<and>
   good_page ''itemList'' (page [item ''a'', item ''b''] ''10'' True) \<and>
   sent (snd (ensure_sec_uid scripted [] page_call_state)) =
     sent page_call_state @ [info_request [] (self page_call_state)] \<and>
   fst (videos_page scripted id [] 30 (JInt 0) page_call_state) =
     Inr [(''videos'', Objects [item ''a'', item ''b'']), (''cursor'', Json (JStr ''10'')),
          (''hasMore'', Json (JBool True))] \<and>
   world (snd (videos_page scripted id [] 30 (JInt 0) page_call_state)) =
     [page [item ''c''] ''11'' False] \<and>
   length (sent (snd (videos_page scripted id [] 30 (JInt 0) page_call_state))) = 2"
proof -
  have a: "ensure_sec_uid scripted [] page_call_state =
     (None, snd (ensure_sec_uid scripted [] page_call_state))"
    by (simp add: page_call_state_def info_defs run_defs)
  have b: "scripted (world (snd (ensure_sec_uid scripted [] page_call_state)))
     (page_request ''https://www.tiktok.com/api/post/item_list/'' (JInt 30) [] (JInt 0)
        (self (snd (ensure_sec_uid scripted [] page_call_state)))) =
     (page [item ''a'', item ''b''] ''10'' True, [page [item ''c''] ''11'' False])"
    by (simp add: page_call_state_def info_defs run_defs)
  have c: "good_page ''itemList'' (page [item ''a'', item ''b''] ''10'' True)"
    by (simp add: good_page_def page_def)
  have n: "sec_uid (self page_call_state) = JNull"
    by (simp add: page_call_state_def start_def bob_def init_user_def)
  have l: "length (sent page_call_state) = 0"
    by (simp add: page_call_state_def start_def)
  have v: "map id (page_items ''itemList'' (page [item ''a'', item ''b''] ''10'' True)) =
             [item ''a'', item ''b''] \<and>
           next_cursor (page [item ''a'', item ''b''] ''10'' True) = JStr ''10'' \<and>
           more_flag (page [item ''a'', item ''b''] ''10'' True) = JBool True"
    by (simp add: page_items_def next_cursor_def more_flag_def page_def)
  note th = videos_page_one_fetch[OF a b, of id]
  from th a have d: "sent (snd (ensure_sec_uid scripted [] page_call_state)) =
     sent page_call_state @ [info_request [] (self page_call_state)]"
    using ensure_sec_uid_sent[OF a] n by blast
  from th c obtain res where
    r: "videos_page scripted id [] 30 (JInt 0) page_call_state =
          (res, (snd (ensure_sec_uid scripted [] page_call_state))
                 \<lparr>world := [page [item ''c''] ''11'' False],
                  sent := sent (snd (ensure_sec_uid scripted [] page_call_state)) @
                    [page_request ''https://www.tiktok.com/api/post/item_list/''
                       (JInt 30) [] (JInt 0) (self (snd (ensure_sec_uid scripted [] page_call_state)))]\<rparr>)"
    and e: "res = Inr [(''videos'',
                Objects (map id (page_items ''itemList'' (page [item ''a'', item ''b''] ''10'' True)))),
              (''cursor'', Json (next_cursor (page [item ''a'', item ''b''] ''10'' True))),
              (''hasMore'', Json (more_flag (page [item ''a'', item ''b''] ''10'' True)))]"
    by blast
  from r e v have f: "fst (videos_page scripted id [] 30 (JInt 0) page_call_state) =
     Inr [(''videos'', Objects [item ''a'', item ''b'']), (''cursor'', Json (JStr ''10'')),
          (''hasMore'', Json (JBool True))]"
    by simp
  from r have g: "world (snd (videos_page scripted id [] 30 (JInt 0) page_call_state)) =
     [page [item ''c''] ''11'' False]"
    by simp
  from r d l have h: "length (sent (snd (videos_page scripted id [] 30 (JInt 0) page_call_state))) = 2"
    by simp
  show ?thesis
    by (rule conjI[OF a conjI[OF b conjI[OF c conjI[OF d conjI[OF f conjI[OF g h]]]]]])
qed

text \<open>
  C9. The pagination loops need not terminate: against a transport whose every page
  reports a continuation and has no items, a call for a positive count is still running
  after any number \<open>fuel\<close> of fetches, having yielded nothing. A generator that has ended
  made no fetch, or its last page could not be iterated, or reported no continuation, or
  brought the items yielded up to the requested count.
\<close>

theorem pagination_may_not_terminate:
  assumes "(r, key, pc) \<in> pagination_calls fuel t mk kw count cursor s"
  shows "(sec_uid (self s) \<noteq> JNull \<and> sec_uid (self s) \<noteq> JStr [] \<and> 0 < count \<and>
          (\<forall>w req. has_more (fst (t w req)) \<and> good_page key (fst (t w req)) \<and>
                   page_items key (fst (t w req)) = []) \<longrightarrow>
            outcome r = OutOfFuel \<and> yielded r = [] \<and> length (fetches r) = fuel \<and>
            length (sent (final r)) = length (sent s) + fuel) \<and>
         (outcome r \<noteq> OutOfFuel \<longrightarrow>
            pages r = [] \<or> \<not> good_page key (last (pages r)) \<or>
            \<not> has_more (last (pages r)) \<or> count \<le> int (length (yielded r)))"
  using call_cases[OF assms]
proof (elim disjE exE conjE)
  fix e s1
  assume e: "ensure_sec_uid t kw s = (Some e, s1)"
    and "r = \<lparr>yielded = [], fetches = [], outcome = Raised e, final = s1\<rparr>"
  then show ?thesis
    using ensure_sec_uid_sent[OF e] by auto
next
  fix u s1
  assume e: "ensure_sec_uid t kw s = (None, s1)"
    and r: "r = pagination_loop fuel t u key pc mk kw count cursor 0 s1"
  have hung: "sec_uid (self s) \<noteq> JNull \<and> sec_uid (self s) \<noteq> JStr [] \<and> 0 < count \<and>
          (\<forall>w req. has_more (fst (t w req)) \<and> good_page key (fst (t w req)) \<and>
                   page_items key (fst (t w req)) = []) \<longrightarrow>
            outcome r = OutOfFuel \<and> yielded r = [] \<and> length (fetches r) = fuel \<and>
            length (sent (final r)) = length (sent s) + fuel"
  proof (intro impI, elim conjE)
    assume sec: "sec_uid (self s) \<noteq> JNull" "sec_uid (self s) \<noteq> JStr []"
      and c: "0 < count"
      and h: "\<forall>w req. has_more (fst (t w req)) \<and> good_page key (fst (t w req)) \<and>
                   page_items key (fst (t w req)) = []"
    from sec ensure_sec_uid_sent[OF e] have s1: "s1 = s" by simp
    from loop_hung[OF h, of 0 count fuel u pc mk kw cursor s1] c
    have "outcome r = OutOfFuel \<and> yielded r = [] \<and> length (fetches r) = fuel"
      unfolding r by simp
    moreover have "sent (final r) = sent s @ map fst (fetches r)"
      unfolding r s1 by (rule loop_sent)
    ultimately show "outcome r = OutOfFuel \<and> yielded r = [] \<and> length (fetches r) = fuel \<and>
            length (sent (final r)) = length (sent s) + fuel"
      by simp
  qed
  have y: "yielded r = map mk (concat (map (page_items key) (pages r)))"
    unfolding r by (rule loop_yielded)
  have ended: "outcome r \<noteq> OutOfFuel \<longrightarrow>
            pages r = [] \<or> \<not> good_page key (last (pages r)) \<or>
            \<not> has_more (last (pages r)) \<or> count \<le> int (length (yielded r))"
  proof (cases "outcome r")
    case Returned
    then show ?thesis
      using loop_returned[of fuel t u key pc mk kw count cursor 0 s1] y unfolding r by auto
  next
    case (Raised e)
    then show ?thesis
      using loop_raised[of fuel t u key pc mk kw count cursor 0 s1 e] unfolding r by auto
  next
    case OutOfFuel
    then show ?thesis by simp
  qed
  from hung ended show ?thesis by blast
qed

theorem pagination_may_not_terminate_witness:
  "(hung, ''itemList'', JInt 35) \<in>
     pagination_calls 3 (always (JObj [(''hasMore'', JBool True)])) id [] 30 (JInt 0)
       (start bob_known ()) \<and>
   sec_uid (self (start bob_known ())) \<noteq> JNull \<and>
   sec_uid (self (start bob_known ())) \<noteq> JStr [] \<and> (0::int) < 30 \<and>
   (\<forall>w req. has_more (fst (always (JObj [(''hasMore'', JBool True)]) w req)) \<and>
            good_page ''itemList'' (fst (always (JObj [(''hasMore'', JBool True)]) w req)) \<and>
            page_items ''itemList'' (fst (always (JObj [(''hasMore'', JBool True)]) w req)) = []) \<and>
   outcome hung = OutOfFuel \<and> yielded hung = [] \<and> length (fetches hung) = 3"
proof -
  have h: "(hung, ''itemList'', JInt 35) \<in>
     pagination_calls 3 (always (JObj [(''hasMore'', JBool True)])) id [] 30 (JInt 0)
       (start bob_known ())"
    by (simp add: pagination_calls_def hung_def)
  have s: "sec_uid (self (start bob_known ())) \<noteq> JNull \<and>
           sec_uid (self (start bob_known ())) \<noteq> JStr [] \<and> (0::int) < 30"
    by (simp add: start_def bob_known_def init_user_def)
  have t: "\<forall>w req. has_more (fst (always (JObj [(''hasMore'', JBool True)]) w req)) \<and>
            good_page ''itemList'' (fst (always (JObj [(''hasMore'', JBool True)]) w req)) \<and>
            page_items ''itemList'' (fst (always (JObj [(''hasMore'', JBool True)]) w req)) = []"
    by (simp add: always_def has_more_def good_page_def page_items_def)
  from pagination_may_not_terminate[OF h] h s t show ?thesis by blast
qed

text \<open>
  C10, as the code has it. When \<^verbatim>\<open>info\<close> receives a response that is not \<^verbatim>\<open>None\<close> and
  then raises \<^verbatim>\<open>InvalidResponseException\<close>, \<^verbatim>\<open>as_dict\<close> already holds that response
  and the three identifiers are untouched; the entity differs from what it was before
  the call whenever \<^verbatim>\<open>as_dict\<close> did not already hold that same response.
\<close>

theorem info_overwrites_before_raising:
  assumes "info t kw s = (Inl InvalidResponseException, s')"
    and "t (world s) (info_request kw (self s)) = (resp, w')"
    and "resp \<noteq> JNull"
  shows "as_dict (self s') = Some resp \<and>
         user_id (self s') = user_id (self s) \<and>
         sec_uid (self s') = sec_uid (self s) \<and>
         username (self s') = username (self s) \<and>
         (as_dict (self s) \<noteq> Some resp \<longrightarrow> self s' \<noteq> self s)"
  using assms
  by (auto simp: info_def Let_def make_request_def dest: as_dict_update_neq
      split: if_splits prod.splits sum.splits)

theorem info_overwrites_before_raising_witness:
  "info scripted [] (start bob [profile (JObj [])]) =
     (Inl InvalidResponseException, snd (info scripted [] (start bob [profile (JObj [])]))) \<and>
   scripted (world (start bob [profile (JObj [])]))
     (info_request [] (self (start bob [profile (JObj [])]))) = (profile (JObj []), []) \<and>
   profile (JObj []) \<noteq> JNull \<and>
   as_dict (self (start bob [profile (JObj [])])) \<noteq> Some (profile (JObj [])) \<and>
   as_dict (self (snd (info scripted [] (start bob [profile (JObj [])])))) =
     Some (profile (JObj [])) \<and>
   self (snd (info scripted [] (start bob [profile (JObj [])]))) \<noteq>
     self (start bob [profile (JObj [])])"
proof -
  have a: "info scripted [] (start bob [profile (JObj [])]) =
     (Inl InvalidResponseException, snd (info scripted [] (start bob [profile (JObj [])])))"
    by (simp add: info_def extract_from_data_def info_request_def run_defs)
  have b: "scripted (world (start bob [profile (JObj [])]))
     (info_request [] (self (start bob [profile (JObj [])]))) = (profile (JObj []), [])"
    by (simp add: scripted_def start_def)
  have c: "profile (JObj []) \<noteq> JNull" by (simp add: profile_def)
  have d: "as_dict (self (start bob [profile (JObj [])])) \<noteq> Some (profile (JObj []))"
    by (simp add: start_def bob_def init_user_def)
  from info_overwrites_before_raising[OF a b c] d
  have e: "as_dict (self (snd (info scripted [] (start bob [profile (JObj [])])))) =
          Some (profile (JObj []))"
    and f: "self (snd (info scripted [] (start bob [profile (JObj [])]))) \<noteq>
          self (start bob [profile (JObj [])])"
    by blast+
  show ?thesis
    by (rule conjI[OF a conjI[OF b conjI[OF c conjI[OF d conjI[OF e f]]]]])
qed

text \<open>
  C10 as stated fails: an entity whose first \<^verbatim>\<open>info\<close> has failed on an empty profile
  receives the same response again; the second call raises
  \<^verbatim>\<open>InvalidResponseException\<close> and leaves the entity as it found it.
\<close>

theorem info_failure_state_differs_counterexample:
  "fst (scripted (world failed_once) (info_request [] (self failed_once))) = profile (JObj []) \<and>
   profile (JObj []) \<noteq> JNull \<and>
   fst (info scripted [] failed_once) = Inl InvalidResponseException \<and>
   self (snd (info scripted [] failed_once)) = self failed_once"
  by (simp add: failed_once_def info_def extract_from_data_def info_request_def run_defs)

end
